theory Spec2Isabelle
  imports Main "HOL-Library.List_Lexorder" "HOL-Library.Sublist"
begin

unbundle bit_operations_syntax

section \<open>The owner-drawn tree control of wx/lib/agw/customtreectrl.py\<close>

text \<open>
  The embedding follows the two classes of the module: \<open>GenericTreeItem\<close> (one node of the
  tree, owning the list of its children) and \<open>CustomTreeCtrl\<close> (the control, owning the
  root item \<open>_anchor\<close>).

  \<^item> An item is a node of a rose tree. A reference to an item (the Python object identity)
    is the item's position: the list of child indices leading to it from the root.
    \<open>item.GetParent()\<close> is the position without its last index, \<open>a == b\<close> on items is
    equality of positions.
  \<^item> Python's \<open>bool\<close> is an \<open>int\<close>: \<open>_checked\<close> holds \<open>False = 0\<close>, \<open>True = 1\<close> or
    \<open>wx.CHK_UNDETERMINED = 2\<close> and is a natural number here.
  \<^item> A method that mutates the control or an item takes the state and returns the new one.
    An exception is a value: the functions that can raise return an \<open>error option\<close> next
    to the state reached when the exception left the function, since Python keeps the
    assignments made before a raise.
  \<^item> The host toolkit (event handlers, text metrics, image lists, window and scroll
    geometry, the platform) is the record \<open>env\<close>. Notifications sent to the host are
    appended to \<open>events\<close>; \<open>ProcessEvent\<close> of the host is a function of the notifications
    sent so far and of the new one.
  \<^item> Painting changes no field of the control or of an item and is left out
    (\<open>RefreshLine\<close>, \<open>RefreshSubtree\<close>, the drawing context). Whole-window \<open>Refresh()\<close>
    requests and layout passes are counted in \<open>refreshes\<close> and \<open>layouts\<close>.
  \<^item> An embedded host window is kept as the flag \<open>it_wnd\<close> with the cached
    \<open>_windowsize\<close>; the window object itself belongs to the host.
\<close>

subsection \<open>Constants\<close>

definition NO_IMAGE :: int where "NO_IMAGE = - 1"
definition PIXELS_PER_UNIT :: int where "PIXELS_PER_UNIT = 10"

definition TreeItemIcon_Normal :: nat where "TreeItemIcon_Normal = 0"
definition TreeItemIcon_Selected :: nat where "TreeItemIcon_Selected = 1"
definition TreeItemIcon_Expanded :: nat where "TreeItemIcon_Expanded = 2"
definition TreeItemIcon_SelectedExpanded :: nat where "TreeItemIcon_SelectedExpanded = 3"

definition TreeItemIcon_Checked :: nat where "TreeItemIcon_Checked = 0"
definition TreeItemIcon_NotChecked :: nat where "TreeItemIcon_NotChecked = 1"
definition TreeItemIcon_Undetermined :: nat where "TreeItemIcon_Undetermined = 2"
definition TreeItemIcon_Flagged :: nat where "TreeItemIcon_Flagged = 3"
definition TreeItemIcon_NotFlagged :: nat where "TreeItemIcon_NotFlagged = 4"

text \<open>The \<open>wx\<close> constants, with the values of the tables in the module's documentation.\<close>

definition CHK_UNCHECKED :: nat where "CHK_UNCHECKED = 0"
definition CHK_CHECKED :: nat where "CHK_CHECKED = 1"
definition CHK_UNDETERMINED :: nat where "CHK_UNDETERMINED = 2"

definition TR_HAS_BUTTONS :: nat where "TR_HAS_BUTTONS = 0x1"
definition TR_MULTIPLE :: nat where "TR_MULTIPLE = 0x20"
definition TR_EXTENDED :: nat where "TR_EXTENDED = 0x40"
definition TR_HAS_VARIABLE_ROW_HEIGHT :: nat where "TR_HAS_VARIABLE_ROW_HEIGHT = 0x80"
definition TR_HIDE_ROOT :: nat where "TR_HIDE_ROOT = 0x800"
definition TR_FULL_ROW_HIGHLIGHT :: nat where "TR_FULL_ROW_HIGHLIGHT = 0x2000"
definition TR_AUTO_CHECK_CHILD :: nat where "TR_AUTO_CHECK_CHILD = 0x04000"
definition TR_AUTO_TOGGLE_CHILD :: nat where "TR_AUTO_TOGGLE_CHILD = 0x08000"
definition TR_AUTO_CHECK_PARENT :: nat where "TR_AUTO_CHECK_PARENT = 0x10000"
definition TR_ALIGN_WINDOWS :: nat where "TR_ALIGN_WINDOWS = 0x20000"
definition TR_ALIGN_WINDOWS_RIGHT :: nat where "TR_ALIGN_WINDOWS_RIGHT = 0x40000"

definition TREE_HITTEST_ABOVE :: nat where "TREE_HITTEST_ABOVE = 0x1"
definition TREE_HITTEST_BELOW :: nat where "TREE_HITTEST_BELOW = 0x2"
definition TREE_HITTEST_NOWHERE :: nat where "TREE_HITTEST_NOWHERE = 0x4"
definition TREE_HITTEST_ONITEMBUTTON :: nat where "TREE_HITTEST_ONITEMBUTTON = 0x8"
definition TREE_HITTEST_ONITEMICON :: nat where "TREE_HITTEST_ONITEMICON = 0x10"
definition TREE_HITTEST_ONITEMINDENT :: nat where "TREE_HITTEST_ONITEMINDENT = 0x20"
definition TREE_HITTEST_ONITEMLABEL :: nat where "TREE_HITTEST_ONITEMLABEL = 0x40"
definition TREE_HITTEST_ONITEMRIGHT :: nat where "TREE_HITTEST_ONITEMRIGHT = 0x80"
definition TREE_HITTEST_TOLEFT :: nat where "TREE_HITTEST_TOLEFT = 0x200"
definition TREE_HITTEST_TORIGHT :: nat where "TREE_HITTEST_TORIGHT = 0x400"
definition TREE_HITTEST_ONITEMUPPERPART :: nat where "TREE_HITTEST_ONITEMUPPERPART = 0x800"
definition TREE_HITTEST_ONITEMLOWERPART :: nat where "TREE_HITTEST_ONITEMLOWERPART = 0x1000"
definition TREE_HITTEST_ONITEMCHECKICON :: nat where "TREE_HITTEST_ONITEMCHECKICON = 0x4000"
definition TREE_HITTEST_ONITEM :: nat where
  "TREE_HITTEST_ONITEM =
     TREE_HITTEST_ONITEMICON OR TREE_HITTEST_ONITEMLABEL OR TREE_HITTEST_ONITEMCHECKICON"

subsection \<open>GenericTreeItem\<close>

type_synonym path = "nat list"

datatype font = ItemFont nat | BoldFont | ItalicFont | NormalFont

datatype error =
    AssertionError
  | AttributeError
  | KeyError
  | Exception string
  | InvalidItem

record item_fields =
  it_text :: string
  it_separator :: bool
  it_images :: "int \<times> int \<times> int \<times> int"
  it_checkedimages :: "nat option \<times> nat option \<times> nat option \<times> nat option \<times> nat option"
  it_x :: int
  it_y :: int
  it_width :: int
  it_height :: int
  it_isCollapsed :: bool
  it_hasHilight :: bool
  it_hasPlus :: bool
  it_isBold :: bool
  it_isItalic :: bool
  it_type :: int
  it_is3State :: bool
  it_checked :: nat
  it_enabled :: bool
  it_hidden :: bool
  it_wnd :: bool
  it_windowsize :: "int \<times> int"
  it_attrFont :: "nat option"

datatype item = Item (flds: item_fields) (GetChildren: "item list")

definition upd :: "(item_fields \<Rightarrow> item_fields) \<Rightarrow> item \<Rightarrow> item" where
  "upd f it = Item (f (flds it)) (GetChildren it)"

definition IsSeparator :: "item \<Rightarrow> bool" where
  "IsSeparator it = it_separator (flds it)"

definition GetText :: "item \<Rightarrow> string" where
  "GetText it = it_text (flds it)"

definition GetImage :: "item \<Rightarrow> nat \<Rightarrow> int" where
  "GetImage it which =
     (case it_images (flds it) of (i0, i1, i2, i3) \<Rightarrow>
        if which = 0 then i0 else if which = 1 then i1 else if which = 2 then i2 else i3)"

definition GetCheckedImage :: "item \<Rightarrow> nat \<Rightarrow> nat option" where
  "GetCheckedImage it which =
     (case it_checkedimages (flds it) of (i0, i1, i2, i3, i4) \<Rightarrow>
        if which = 0 then i0 else if which = 1 then i1 else if which = 2 then i2
        else if which = 3 then i3 else i4)"

definition SetX :: "item \<Rightarrow> int \<Rightarrow> item" where
  "SetX it v = upd (\<lambda>a. a\<lparr>it_x := v\<rparr>) it"

definition SetY :: "item \<Rightarrow> int \<Rightarrow> item" where
  "SetY it v = upd (\<lambda>a. a\<lparr>it_y := v\<rparr>) it"

definition GetY :: "item \<Rightarrow> int" where
  "GetY it = it_y (flds it)"

definition GetHeight :: "item \<Rightarrow> int" where
  "GetHeight it = it_height (flds it)"

definition SetHeight :: "item \<Rightarrow> int \<Rightarrow> item" where
  "SetHeight it h = upd (\<lambda>a. a\<lparr>it_height := h\<rparr>) it"

definition SetWidth :: "item \<Rightarrow> int \<Rightarrow> item" where
  "SetWidth it w = upd (\<lambda>a. a\<lparr>it_width := w\<rparr>) it"

definition GetWindow :: "item \<Rightarrow> bool" where
  "GetWindow it = it_wnd (flds it)"

definition GetWindowSize :: "item \<Rightarrow> int \<times> int" where
  "GetWindowSize it = it_windowsize (flds it)"

definition GetType :: "item \<Rightarrow> int" where
  "GetType it = it_type (flds it)"

definition IsHidden :: "item \<Rightarrow> bool" where
  "IsHidden it = it_hidden (flds it)"

definition Hide :: "item \<Rightarrow> bool \<Rightarrow> item" where
  "Hide it hide = upd (\<lambda>a. a\<lparr>it_hidden := hide\<rparr>) it"

definition Expand_item :: "item \<Rightarrow> item" where
  "Expand_item it = upd (\<lambda>a. a\<lparr>it_isCollapsed := False\<rparr>) it"

definition SetHasPlus :: "item \<Rightarrow> bool \<Rightarrow> item" where
  "SetHasPlus it has = upd (\<lambda>a. a\<lparr>it_hasPlus := has\<rparr>) it"

definition SetHilight :: "item \<Rightarrow> bool \<Rightarrow> item" where
  "SetHilight it s = upd (\<lambda>a. a\<lparr>it_hasHilight := s\<rparr>) it"

definition HasChildren :: "item \<Rightarrow> bool" where
  "HasChildren it = (length (GetChildren it) > 0)"

definition IsSelected :: "item \<Rightarrow> bool" where
  "IsSelected it = it_hasHilight (flds it)"

definition IsExpanded :: "item \<Rightarrow> bool" where
  "IsExpanded it = (if IsHidden it then False else \<not> it_isCollapsed (flds it))"

definition Is3State :: "item \<Rightarrow> bool" where
  "Is3State it = it_is3State (flds it)"

definition Get3StateValue :: "item \<Rightarrow> error + nat" where
  "Get3StateValue it =
     (if \<not> Is3State it
      then Inl (Exception ''Get3StateValue can only be used with 3-state checkbox items.'')
      else Inr (it_checked (flds it)))"

definition GetValue :: "item \<Rightarrow> nat" where
  "GetValue it =
     (if Is3State it
      then (case Get3StateValue it of Inr v \<Rightarrow> v | Inl _ \<Rightarrow> it_checked (flds it))
      else it_checked (flds it))"

definition Set3StateValue :: "item \<Rightarrow> nat \<Rightarrow> error option \<times> item" where
  "Set3StateValue it state =
     (if state \<notin> set [CHK_UNCHECKED, CHK_CHECKED, CHK_UNDETERMINED] then (Some AssertionError, it)
      else if \<not> it_is3State (flds it) \<and> state = CHK_UNDETERMINED
      then (Some (Exception ''Set3StateValue can only be used with 3-state checkbox items.''), it)
      else (None, upd (\<lambda>a. a\<lparr>it_checked := state\<rparr>) it))"

definition Set3State :: "item \<Rightarrow> bool \<Rightarrow> bool \<times> item" where
  "Set3State it allow =
     (if it_type (flds it) \<noteq> 1 then (False, it)
      else (True, upd (\<lambda>a. a\<lparr>it_is3State := allow\<rparr>) it))"

definition IsChecked :: "item \<Rightarrow> nat" where
  "IsChecked it = GetValue it"

text \<open>\<open>assert checked in [True, False]\<close>: the integers 1 and 0.\<close>

definition Check :: "item \<Rightarrow> nat \<Rightarrow> error option \<times> item" where
  "Check it checked =
     (if checked \<notin> set [1, 0] then (Some AssertionError, it)
      else (None, upd (\<lambda>a. a\<lparr>it_checked := checked\<rparr>) it))"

definition HasPlus :: "item \<Rightarrow> bool" where
  "HasPlus it = (it_hasPlus (flds it) \<or> HasChildren it)"

definition IsBold :: "item \<Rightarrow> bool" where
  "IsBold it = it_isBold (flds it)"

definition IsItalic :: "item \<Rightarrow> bool" where
  "IsItalic it = it_isItalic (flds it)"

definition Enable :: "item \<Rightarrow> bool \<Rightarrow> item" where
  "Enable it enable = upd (\<lambda>a. a\<lparr>it_enabled := enable\<rparr>) it"

definition IsEnabled :: "item \<Rightarrow> bool" where
  "IsEnabled it = (if IsHidden it then False else it_enabled (flds it))"

fun GetChildrenCount :: "item \<Rightarrow> nat"
  and GetChildrenCount_sum :: "item list \<Rightarrow> nat" where
  "GetChildrenCount (Item a cs) = length cs + GetChildrenCount_sum cs"
| "GetChildrenCount_sum [] = 0"
| "GetChildrenCount_sum (c # cs) = GetChildrenCount c + GetChildrenCount_sum cs"

definition GetCurrentImage :: "item \<Rightarrow> int" where
  "GetCurrentImage it =
     (let img =
        (if IsExpanded it then
           (let img = (if IsSelected it then GetImage it TreeItemIcon_SelectedExpanded
                         else NO_IMAGE)
            in if img = NO_IMAGE then GetImage it TreeItemIcon_Expanded else img)
         else (if IsSelected it then GetImage it TreeItemIcon_Selected else NO_IMAGE))
      in if img = NO_IMAGE then GetImage it TreeItemIcon_Normal else img)"

definition GetCurrentCheckedImage :: "item \<Rightarrow> nat option" where
  "GetCurrentCheckedImage it =
     (if it_type (flds it) = 0 then None
      else let checked = IsChecked it in
        if checked \<noteq> 0 then
          (if it_type (flds it) = 1 then
             (if checked = CHK_CHECKED then GetCheckedImage it TreeItemIcon_Checked
              else GetCheckedImage it TreeItemIcon_Undetermined)
           else GetCheckedImage it TreeItemIcon_Flagged)
        else
          (if it_type (flds it) = 1 then GetCheckedImage it TreeItemIcon_NotChecked
           else GetCheckedImage it TreeItemIcon_NotFlagged))"

text \<open>The item at a position, and the positions of a tree.\<close>

fun get_item :: "item \<Rightarrow> path \<Rightarrow> item option" where
  "get_item it [] = Some it"
| "get_item it (i # p) =
     (if i < length (GetChildren it) then get_item (GetChildren it ! i) p else None)"

subsection \<open>The host toolkit and the control\<close>

datatype evt = EVT_TREE_ITEM_CHECKING | EVT_TREE_ITEM_CHECKED | EVT_TREE_DELETE_ITEM

type_synonym event = "evt \<times> path"

record env =
  handler :: "event list \<Rightarrow> event \<Rightarrow> bool"
  GetFullMultiLineTextExtent :: "font \<Rightarrow> string \<Rightarrow> int \<times> int"
  imageListNormal :: "(int \<Rightarrow> int \<times> int) option"
  imageListCheck :: "nat \<Rightarrow> int \<times> int"
  GetSize :: "int \<times> int"
  GetClientSize :: "int \<times> int"
  GetViewStart :: "int \<times> int"
  CalcUnscrolledPosition :: "int \<times> int \<Rightarrow> int \<times> int"
  isMac :: bool

record tree_ctrl =
  anchor :: "item option"
  current :: "path option"
  key_current :: "path option"
  select_me :: "path option"
  dirty :: bool
  lineHeight :: int
  indent :: int
  spacing :: int
  agwStyle :: nat
  freezeCount :: nat
  absoluteWindows :: "int \<Rightarrow> int option"
  events :: "event list"
  refreshes :: nat
  layouts :: nat

definition HasAGWFlag :: "tree_ctrl \<Rightarrow> nat \<Rightarrow> bool" where
  "HasAGWFlag c flag = (agwStyle c AND flag \<noteq> 0)"

definition HasButtons :: "tree_ctrl \<Rightarrow> bool" where
  "HasButtons c = HasAGWFlag c TR_HAS_BUTTONS"

definition GetLineHeight :: "tree_ctrl \<Rightarrow> item \<Rightarrow> int" where
  "GetLineHeight c it =
     (if agwStyle c AND TR_HAS_VARIABLE_ROW_HEIGHT \<noteq> 0 then GetHeight it else lineHeight c)"

definition IsItemEnabled :: "item \<Rightarrow> bool" where
  "IsItemEnabled it = IsEnabled it"

text \<open>
  \<open>GetEventHandler().ProcessEvent(e)\<close>: the notification is recorded and the host answers
  whether a handler processed it.
\<close>

definition ProcessEvent :: "env \<Rightarrow> tree_ctrl \<Rightarrow> event \<Rightarrow> bool \<times> tree_ctrl" where
  "ProcessEvent e c ev = (handler e (events c) ev, c\<lparr>events := events c @ [ev]\<rparr>)"

subsection \<open>Hit testing\<close>

text \<open>
  \<open>GenericTreeItem.HitTest\<close>, the part that classifies a point whose ordinate lies in the
  item's row. Every path of that part returns the item itself; the function returns the
  flags.
\<close>

definition HitTest_row :: "env \<Rightarrow> tree_ctrl \<Rightarrow> int \<times> int \<Rightarrow> item \<Rightarrow> nat \<Rightarrow> int \<Rightarrow> nat" where
  "HitTest_row e c point it flags0 h =
     (let pointX = fst point; pointY = snd point; a = flds it;
          y_mid = it_y a + h div 2;
          flags = (if pointY < y_mid then flags0 OR TREE_HITTEST_ONITEMUPPERPART
                   else flags0 OR TREE_HITTEST_ONITEMLOWERPART);
          xCross = it_x a - spacing c
      in
        if (if isMac e
            then pointX > xCross - 4 \<and> pointX < xCross + 10 \<and> pointY > y_mid - 4 \<and>
                 pointY < y_mid + 10 \<and> HasPlus it \<and> HasButtons c
            else pointX > xCross - 6 \<and> pointX < xCross + 6 \<and> pointY > y_mid - 6 \<and>
                 pointY < y_mid + 6 \<and> HasPlus it \<and> HasButtons c)
        then flags OR TREE_HITTEST_ONITEMBUTTON
        else if pointX \<ge> it_x a \<and> pointX \<le> it_x a + it_width a then
          (let image_w =
                 (if GetImage it TreeItemIcon_Normal \<noteq> NO_IMAGE then
                    (case imageListNormal e of
                       Some sz \<Rightarrow> fst (sz (GetImage it TreeItemIcon_Normal))
                     | None \<Rightarrow> - 1)
                  else - 1);
               wcheck =
                 (case GetCheckedImage it TreeItemIcon_Checked of
                    Some ci \<Rightarrow> fst (imageListCheck e ci)
                  | None \<Rightarrow> 0)
           in
             if wcheck \<noteq> 0 \<and> pointX \<le> it_x a + wcheck + 1
             then flags OR TREE_HITTEST_ONITEMCHECKICON
             else if image_w \<noteq> - 1 \<and> pointX \<le> it_x a + wcheck + image_w + 1
             then flags OR TREE_HITTEST_ONITEMICON
             else flags OR TREE_HITTEST_ONITEMLABEL)
        else
          (let flags1 =
                 (if pointX < it_x a then
                    (if HasAGWFlag c TR_FULL_ROW_HIGHLIGHT then flags OR TREE_HITTEST_ONITEM
                     else flags OR TREE_HITTEST_ONITEMINDENT)
                  else flags);
               flags2 =
                 (if pointX > it_x a + it_width a then
                    (if HasAGWFlag c TR_FULL_ROW_HIGHLIGHT then flags1 OR TREE_HITTEST_ONITEM
                     else flags1 OR TREE_HITTEST_ONITEMRIGHT)
                  else flags1)
           in flags2))"

text \<open>
  \<open>GenericTreeItem.HitTest(point, theCtrl, flags, level)\<close>. \<open>here\<close> is the position of
  \<open>self\<close>; the result is the hit item (its position and the object) or \<open>None\<close>, and the
  flags. The second function is the loop over the children, \<open>n\<close> being the index of the
  first child of the list.
\<close>

fun HitTest_item ::
    "env \<Rightarrow> tree_ctrl \<Rightarrow> path \<Rightarrow> int \<times> int \<Rightarrow> item \<Rightarrow> nat \<Rightarrow> nat \<Rightarrow> (path \<times> item) option \<times> nat"
  and HitTest_children ::
    "env \<Rightarrow> tree_ctrl \<Rightarrow> path \<Rightarrow> nat \<Rightarrow> int \<times> int \<Rightarrow> item list \<Rightarrow> nat \<Rightarrow> nat \<Rightarrow>
       (path \<times> item) option \<times> nat" where
  "HitTest_item e c here point (Item a cs) flags level =
     (if IsHidden (Item a cs) then (None, flags)
      else if \<not> (level = 0 \<and> HasAGWFlag c TR_HIDE_ROOT) then
        (let h = GetLineHeight c (Item a cs) in
           if snd point > it_y a \<and> snd point < it_y a + h
           then (Some (here, Item a cs), HitTest_row e c point (Item a cs) flags h)
           else if \<not> IsExpanded (Item a cs) then (None, 0)
           else HitTest_children e c here 0 point cs flags (level + 1))
      else HitTest_children e c here 0 point cs flags (level + 1))"
| "HitTest_children e c here n point [] flags level = (None, 0)"
| "HitTest_children e c here n point (child # rest) flags level =
     (case HitTest_item e c (here @ [n]) point child flags level of
        (Some res, flags') \<Rightarrow> (Some res, flags')
      | (None, flags') \<Rightarrow> HitTest_children e c here (Suc n) point rest flags' level)"

text \<open>\<open>CustomTreeCtrl.HitTest(point)\<close>.\<close>

definition HitTest :: "env \<Rightarrow> tree_ctrl \<Rightarrow> int \<times> int \<Rightarrow> (path \<times> item) option \<times> nat" where
  "HitTest e c point =
     (let w = fst (GetSize e); h = snd (GetSize e);
          pointX = fst point; pointY = snd point;
          flags0 = (0 :: nat);
          flags1 = (if pointX < 0 then flags0 OR TREE_HITTEST_TOLEFT else flags0);
          flags2 = (if pointX > w then flags1 OR TREE_HITTEST_TORIGHT else flags1);
          flags3 = (if pointY < 0 then flags2 OR TREE_HITTEST_ABOVE else flags2);
          flags4 = (if pointY > h then flags3 OR TREE_HITTEST_BELOW else flags3)
      in
        if flags4 \<noteq> 0 then (None, flags4)
        else case anchor c of
          None \<Rightarrow> (None, TREE_HITTEST_NOWHERE)
        | Some root \<Rightarrow>
            (case HitTest_item e c [] (CalcUnscrolledPosition e point) root flags4 0 of
               (None, flags) \<Rightarrow> (None, TREE_HITTEST_NOWHERE)
             | (Some (p, hit), flags) \<Rightarrow>
                 if \<not> IsItemEnabled hit then (None, flags) else (Some (p, hit), flags)))"

subsection \<open>Visibility\<close>

text \<open>
  \<open>GetBoundingRect(item)\<close>: the rectangle \<open>(x, y, width, height)\<close>. \<open>wx.Rect\<close> is the
  host's class: \<open>GetRight() = x + width - 1\<close>, \<open>GetBottom() = y + height - 1\<close>, and a
  rectangle is false when all four numbers are 0.
\<close>

definition GetBoundingRect :: "env \<Rightarrow> tree_ctrl \<Rightarrow> item \<Rightarrow> int \<times> int \<times> int \<times> int" where
  "GetBoundingRect e c i =
     (let startX = fst (GetViewStart e); startY = snd (GetViewStart e)
      in (it_x (flds i) - startX * PIXELS_PER_UNIT,
          it_y (flds i) - startY * PIXELS_PER_UNIT,
          it_width (flds i),
          GetLineHeight c i))"

text \<open>
  The loop \<open>while parent: if not parent.IsExpanded(): return False; parent =
  parent.GetParent()\<close> of \<open>IsVisible\<close>, started at the parent of the item at \<open>p\<close>.
\<close>

function parents_expanded :: "item \<Rightarrow> path \<Rightarrow> bool" where
  "parents_expanded root p =
     (if p = [] then True
      else case get_item root (butlast p) of
        None \<Rightarrow> False
      | Some parent \<Rightarrow>
          if \<not> IsExpanded parent then False else parents_expanded root (butlast p))"
  by pat_completeness auto
termination
  by (relation "measure (\<lambda>(root, p). length p)") auto

definition IsVisible :: "env \<Rightarrow> tree_ctrl \<Rightarrow> path \<Rightarrow> error + bool" where
  "IsVisible e c p =
     (case anchor c of
        None \<Rightarrow> Inl InvalidItem
      | Some root \<Rightarrow>
          (case get_item root p of
             None \<Rightarrow> Inl InvalidItem
           | Some item \<Rightarrow>
               Inr (if IsHidden item then False
                    else if \<not> parents_expanded root p then False
                    else (case GetBoundingRect e c item of (x, y, w, h) \<Rightarrow>
                      if (x, y, w, h) = (0, 0, 0, 0) then False
                      else if w = 0 \<or> h = 0 then False
                      else if y + h - 1 < 0 \<or> y > snd (GetClientSize e) then False
                      else if x + w - 1 < 0 \<or> x > fst (GetClientSize e) then False
                      else True))))"

subsection \<open>Layout\<close>

text \<open>\<open>CalculateSize(item, dc, level=-1, align=0)\<close>.\<close>

definition CalculateSize ::
    "env \<Rightarrow> tree_ctrl \<Rightarrow> item \<Rightarrow> int \<Rightarrow> int \<Rightarrow> error option \<times> tree_ctrl \<times> item" where
  "CalculateSize e c item level align =
     (if freezeCount c \<noteq> 0 then (None, c\<lparr>dirty := True\<rparr>, item)
      else if IsHidden item then (None, c, SetHeight item 0)
      else
        (let fnt = (case it_attrFont (flds item) of
                      Some f \<Rightarrow> ItemFont f
                    | None \<Rightarrow> if IsBold item then BoldFont
                              else if IsItalic item then ItalicFont else NormalFont);
             text_w = fst (GetFullMultiLineTextExtent e fnt (GetText item));
             text_h = snd (GetFullMultiLineTextExtent e fnt (GetText item)) + 2;
             img = GetCurrentImage item;
             image_w = (if img \<noteq> NO_IMAGE then
                          (case imageListNormal e of Some sz \<Rightarrow> fst (sz img) + 4 | None \<Rightarrow> 0)
                        else 0);
             image_h = (if img \<noteq> NO_IMAGE then
                          (case imageListNormal e of Some sz \<Rightarrow> snd (sz img) | None \<Rightarrow> 0)
                        else 0);
             total_h0 = (if image_h > text_h then image_h else text_h);
             wcheck = (case GetCurrentCheckedImage item of
                         Some checkimage \<Rightarrow> fst (imageListCheck e checkimage) + 4
                       | None \<Rightarrow> 0);
             total_h = (if total_h0 < 30 then total_h0 + 2 else total_h0 + total_h0 div 10);
             c1 = (if total_h > lineHeight c then c\<lparr>lineHeight := total_h\<rparr> else c);
             wnd = GetWindow item;
             totalWidth = (if \<not> wnd then image_w + text_w + wcheck + 2
                           else fst (GetWindowSize item) + image_w + text_w + wcheck + 2);
             totalHeight = (if \<not> wnd then total_h else max total_h (snd (GetWindowSize item)))
         in
           if level \<ge> 0 \<and> wnd \<and> align \<noteq> 0 \<and> align = 1 \<and> absoluteWindows c1 level = None
           then (Some KeyError, c1, item)
           else
             (let c2 =
                    (if level \<ge> 0 \<and> wnd then
                       (if align = 0 then
                          (case absoluteWindows c1 level of
                             Some v \<Rightarrow> c1\<lparr>absoluteWindows := (absoluteWindows c1)
                                         (level \<mapsto> max v (image_w + text_w + wcheck + 2))\<rparr>
                           | None \<Rightarrow> c1\<lparr>absoluteWindows := (absoluteWindows c1)
                                         (level \<mapsto> image_w + text_w + wcheck + 2)\<rparr>)
                        else if align = 1 then
                          (case absoluteWindows c1 level of
                             Some v \<Rightarrow> c1\<lparr>absoluteWindows := (absoluteWindows c1)
                                         (level \<mapsto> max v (image_w + text_w + wcheck + 2))\<rparr>
                           | None \<Rightarrow> c1)
                        else c1)
                     else c1);
                  totalWidth' = (if IsSeparator item then fst (GetClientSize e) else totalWidth);
                  totalHeight' = (if IsSeparator item then total_h else totalHeight)
              in (None, c2, SetHeight (SetWidth item totalWidth') totalHeight'))))"

subsection \<open>Enabling and checking\<close>

text \<open>The replacement of the item at a position.\<close>

fun put_item :: "item \<Rightarrow> path \<Rightarrow> item \<Rightarrow> item" where
  "put_item it [] new = new"
| "put_item it (i # p) new =
     Item (flds it) ((GetChildren it)[i := put_item (GetChildren it ! i) p new])"

text \<open>\<open>SelectItem(item, False)\<close>, the branch that deselects.\<close>

definition SelectItem_False :: "item \<Rightarrow> item" where
  "SelectItem_False item = SetHilight item False"

text \<open>\<open>EnableItem(item, enable, torefresh)\<close>.\<close>

definition EnableItem ::
    "env \<Rightarrow> tree_ctrl \<Rightarrow> item \<Rightarrow> bool \<Rightarrow> bool \<Rightarrow> error option \<times> tree_ctrl \<times> item" where
  "EnableItem e c item enable torefresh =
     (if IsEnabled item = enable then (None, c, item)
      else
        (let item1 = (if \<not> enable \<and> IsSelected item then SelectItem_False item else item);
             item2 = Enable item1 enable
         in if torefresh then CalculateSize e c item2 (- 1) 0 else (None, c, item2)))"

text \<open>
  The source writes \<open>child.GetType != 2\<close>, without the call: a bound method is compared
  with an integer, and they are never equal.
\<close>

definition GetType_method_ne_2 :: bool where
  "GetType_method_ne_2 = True"

text \<open>
  \<open>EnableChildren(item, enable)\<close>, and its loop over the children (\<open>parent_checked\<close> is
  \<open>item.IsChecked()\<close>). \<open>EnableItem\<close> keeps the children of the item it is given, which
  the recursive call shows by taking them from the child before the call.
\<close>

fun EnableChildren ::
    "env \<Rightarrow> tree_ctrl \<Rightarrow> item \<Rightarrow> bool \<Rightarrow> error option \<times> tree_ctrl \<times> item"
  and EnableChildren_loop ::
    "env \<Rightarrow> tree_ctrl \<Rightarrow> bool \<Rightarrow> bool \<Rightarrow> item list \<Rightarrow> bool \<Rightarrow>
       error option \<times> tree_ctrl \<times> item list" where
  "EnableChildren e c (Item a cs) enable =
     (let torefresh = IsExpanded (Item a cs) in
        if GetType (Item a cs) = 2 \<and> enable \<and> IsChecked (Item a cs) = 0 then (None, c, Item a cs)
        else (case EnableChildren_loop e c torefresh (IsChecked (Item a cs) \<noteq> 0) cs enable of
                (err, c', cs') \<Rightarrow> (err, c', Item a cs')))"
| "EnableChildren_loop e c torefresh parent_checked [] enable = (None, c, [])"
| "EnableChildren_loop e c torefresh parent_checked (Item ca ccs # rest) enable =
     (case EnableItem e c (Item ca ccs) enable torefresh of
        (Some err, c1, child1) \<Rightarrow> (Some err, c1, child1 # rest)
      | (None, c1, child1) \<Rightarrow>
          (case (if GetType_method_ne_2 \<or> (GetType child1 = 2 \<and> parent_checked)
                 then EnableChildren e c1 (Item (flds child1) ccs) enable
                 else (None, c1, child1)) of
             (Some err, c2, child2) \<Rightarrow> (Some err, c2, child2 # rest)
           | (None, c2, child2) \<Rightarrow>
               (case EnableChildren_loop e c2 torefresh parent_checked rest enable of
                  (err, c3, rest') \<Rightarrow> (err, c3, child2 # rest'))))"

text \<open>\<open>CheckItem2(item, checked, torefresh)\<close>.\<close>

definition CheckItem2 ::
    "env \<Rightarrow> tree_ctrl \<Rightarrow> item \<Rightarrow> nat \<Rightarrow> bool \<Rightarrow> error option \<times> tree_ctrl \<times> item" where
  "CheckItem2 e c item checked torefresh =
     (if GetType item = 0 then (None, c, item)
      else (case Check item checked of
              (Some err, item1) \<Rightarrow> (Some err, c, item1)
            | (None, item1) \<Rightarrow>
                if torefresh then CalculateSize e c item1 (- 1) 0 else (None, c, item1)))"

text \<open>
  \<open>UnCheckRadioParent(item, checked)\<close> for the item at \<open>here\<close>; the first component is
  the returned boolean.
\<close>

definition UnCheckRadioParent ::
    "env \<Rightarrow> tree_ctrl \<Rightarrow> path \<Rightarrow> item \<Rightarrow> nat \<Rightarrow> bool \<times> error option \<times> tree_ctrl \<times> item" where
  "UnCheckRadioParent e c here item checked =
     (case ProcessEvent e c (EVT_TREE_ITEM_CHECKING, here) of
        (True, c1) \<Rightarrow> (False, None, c1, item)
      | (False, c1) \<Rightarrow>
          (case Check item checked of
             (Some err, item1) \<Rightarrow> (False, Some err, c1, item1)
           | (None, item1) \<Rightarrow>
               (case EnableChildren e c1 item1 (checked \<noteq> 0) of
                  (Some err, c2, item2) \<Rightarrow> (False, Some err, c2, item2)
                | (None, c2, item2) \<Rightarrow>
                    (True, None, snd (ProcessEvent e c2 (EVT_TREE_ITEM_CHECKED, here)), item2))))"

text \<open>
  The loop of \<open>CheckSameLevel(item, checked)\<close> over the children of the parent: \<open>idx\<close> is
  the index of \<open>item\<close> among them, \<open>n\<close> the index of the first child of the list.
\<close>

fun CheckSameLevel_loop ::
    "env \<Rightarrow> tree_ctrl \<Rightarrow> bool \<Rightarrow> nat \<Rightarrow> nat \<Rightarrow> item list \<Rightarrow> nat \<Rightarrow>
       error option \<times> tree_ctrl \<times> item list" where
  "CheckSameLevel_loop e c torefresh idx n [] checked = (None, c, [])"
| "CheckSameLevel_loop e c torefresh idx n (child # rest) checked =
     (if GetType child = 2 \<and> n \<noteq> idx then
        (case CheckItem2 e c child checked torefresh of
           (Some err, c1, child1) \<Rightarrow> (Some err, c1, child1 # rest)
         | (None, c1, child1) \<Rightarrow>
             (case (if GetType_method_ne_2 \<or> (GetType child1 = 2 \<and> IsChecked child1 \<noteq> 0)
                    then EnableChildren e c1 child1 (checked \<noteq> 0)
                    else (None, c1, child1)) of
                (Some err, c2, child2) \<Rightarrow> (Some err, c2, child2 # rest)
              | (None, c2, child2) \<Rightarrow>
                  (case CheckSameLevel_loop e c2 torefresh idx (Suc n) rest checked of
                     (err, c3, rest') \<Rightarrow> (err, c3, child2 # rest'))))
      else (case CheckSameLevel_loop e c torefresh idx (Suc n) rest checked of
              (err, c3, rest') \<Rightarrow> (err, c3, child # rest')))"

text \<open>\<open>CheckSameLevel(item, checked)\<close> for the item at \<open>p\<close> of the tree \<open>root\<close>.\<close>

definition CheckSameLevel ::
    "env \<Rightarrow> tree_ctrl \<Rightarrow> item \<Rightarrow> path \<Rightarrow> nat \<Rightarrow> error option \<times> tree_ctrl \<times> item" where
  "CheckSameLevel e c root p checked =
     (if p = [] then (None, c, root)
      else case get_item root (butlast p) of
        None \<Rightarrow> (Some InvalidItem, c, root)
      | Some parent \<Rightarrow>
          (let torefresh = IsExpanded parent in
             case CheckSameLevel_loop e c torefresh (last p) 0 (GetChildren parent) checked of
               (err, c', cs') \<Rightarrow>
                 (err, c', put_item root (butlast p) (Item (flds parent) cs'))))"

text \<open>\<open>AutoToggleChild(item)\<close> and \<open>AutoCheckChild(item, checked)\<close>, with their loops.\<close>

fun AutoToggleChild ::
    "env \<Rightarrow> tree_ctrl \<Rightarrow> item \<Rightarrow> error option \<times> tree_ctrl \<times> item"
  and AutoToggleChild_loop ::
    "env \<Rightarrow> tree_ctrl \<Rightarrow> bool \<Rightarrow> item list \<Rightarrow> error option \<times> tree_ctrl \<times> item list" where
  "AutoToggleChild e c (Item a cs) =
     (case AutoToggleChild_loop e c (IsExpanded (Item a cs)) cs of
        (err, c', cs') \<Rightarrow> (err, c', Item a cs'))"
| "AutoToggleChild_loop e c torefresh [] = (None, c, [])"
| "AutoToggleChild_loop e c torefresh (Item ca ccs # rest) =
     (case (if GetType (Item ca ccs) = 1 \<and> IsEnabled (Item ca ccs)
            then CheckItem2 e c (Item ca ccs)
                   (if IsChecked (Item ca ccs) \<noteq> 0 then 0 else 1) torefresh
            else (None, c, Item ca ccs)) of
        (Some err, c1, child1) \<Rightarrow> (Some err, c1, child1 # rest)
      | (None, c1, child1) \<Rightarrow>
          (case AutoToggleChild e c1 (Item (flds child1) ccs) of
             (Some err, c2, child2) \<Rightarrow> (Some err, c2, child2 # rest)
           | (None, c2, child2) \<Rightarrow>
               (case AutoToggleChild_loop e c2 torefresh rest of
                  (err, c3, rest') \<Rightarrow> (err, c3, child2 # rest'))))"

fun AutoCheckChild ::
    "env \<Rightarrow> tree_ctrl \<Rightarrow> item \<Rightarrow> nat \<Rightarrow> error option \<times> tree_ctrl \<times> item"
  and AutoCheckChild_loop ::
    "env \<Rightarrow> tree_ctrl \<Rightarrow> bool \<Rightarrow> item list \<Rightarrow> nat \<Rightarrow> error option \<times> tree_ctrl \<times> item list" where
  "AutoCheckChild e c (Item a cs) checked =
     (case AutoCheckChild_loop e c (IsExpanded (Item a cs)) cs checked of
        (err, c', cs') \<Rightarrow> (err, c', Item a cs'))"
| "AutoCheckChild_loop e c torefresh [] checked = (None, c, [])"
| "AutoCheckChild_loop e c torefresh (Item ca ccs # rest) checked =
     (case (if GetType (Item ca ccs) = 1 \<and> IsEnabled (Item ca ccs)
            then CheckItem2 e c (Item ca ccs) checked torefresh
            else (None, c, Item ca ccs)) of
        (Some err, c1, child1) \<Rightarrow> (Some err, c1, child1 # rest)
      | (None, c1, child1) \<Rightarrow>
          (case AutoCheckChild e c1 (Item (flds child1) ccs) checked of
             (Some err, c2, child2) \<Rightarrow> (Some err, c2, child2 # rest)
           | (None, c2, child2) \<Rightarrow>
               (case AutoCheckChild_loop e c2 torefresh rest checked of
                  (err, c3, rest') \<Rightarrow> (err, c3, child2 # rest'))))"

text \<open>
  \<open>AutoCheckParent(item, checked)\<close> for the item at \<open>p\<close>: the loop over the siblings
  answers whether one enabled checkbox among them disagrees with \<open>checked\<close>.
\<close>

fun AutoCheckParent_disagree :: "item list \<Rightarrow> nat \<Rightarrow> bool" where
  "AutoCheckParent_disagree [] checked = False"
| "AutoCheckParent_disagree (child # rest) checked =
     (if GetType child = 1 \<and> IsEnabled child \<and> checked \<noteq> IsChecked child then True
      else AutoCheckParent_disagree rest checked)"

function AutoCheckParent ::
    "env \<Rightarrow> tree_ctrl \<Rightarrow> item \<Rightarrow> path \<Rightarrow> nat \<Rightarrow> error option \<times> tree_ctrl \<times> item" where
  "AutoCheckParent e c root p checked =
     (if p = [] then (None, c, root)
      else case get_item root (butlast p) of
        None \<Rightarrow> (Some InvalidItem, c, root)
      | Some parent \<Rightarrow>
          if GetType parent \<noteq> 1 then (None, c, root)
          else if AutoCheckParent_disagree (GetChildren parent) checked then (None, c, root)
          else (case CheckItem2 e c parent checked True of
                  (Some err, c1, parent1) \<Rightarrow> (Some err, c1, put_item root (butlast p) parent1)
                | (None, c1, parent1) \<Rightarrow>
                    AutoCheckParent e c1 (put_item root (butlast p) parent1) (butlast p) checked))"
  by pat_completeness auto
termination
  by (relation "measure (\<lambda>(e, c, root, p, checked). length p)") auto

definition IsItemChecked :: "item \<Rightarrow> nat" where
  "IsItemChecked item = IsChecked item"

text \<open>
  \<open>CheckItem(item, checked)\<close> for the item at \<open>p\<close>. The part for check boxes works on the
  tree \<open>root\<close> and returns it.
\<close>

definition CheckItem_checkbox ::
    "env \<Rightarrow> tree_ctrl \<Rightarrow> item \<Rightarrow> path \<Rightarrow> item \<Rightarrow> nat \<Rightarrow> error option \<times> tree_ctrl \<times> item" where
  "CheckItem_checkbox e c root p item checked =
     (case ProcessEvent e c (EVT_TREE_ITEM_CHECKING, p) of
        (True, c1) \<Rightarrow> (None, c1, root)
      | (False, c1) \<Rightarrow>
          (case (if Is3State item then Set3StateValue item checked else Check item checked) of
             (Some err, item1) \<Rightarrow> (Some err, c1, put_item root p item1)
           | (None, item1) \<Rightarrow>
               (case (if HasAGWFlag c1 TR_AUTO_CHECK_CHILD
                      then AutoCheckChild e c1 item1 (IsItemChecked item1)
                      else (None, c1, item1)) of
                  (Some err, c2, item2) \<Rightarrow> (Some err, c2, put_item root p item2)
                | (None, c2, item2) \<Rightarrow>
                    (case (if HasAGWFlag c2 TR_AUTO_CHECK_PARENT
                           then AutoCheckParent e c2 (put_item root p item2) p (IsItemChecked item2)
                           else if HasAGWFlag c2 TR_AUTO_TOGGLE_CHILD
                           then (case AutoToggleChild e c2 item2 of
                                   (err, c3, item3) \<Rightarrow> (err, c3, put_item root p item3))
                           else (None, c2, put_item root p item2)) of
                       (Some err, c3, root3) \<Rightarrow> (Some err, c3, root3)
                     | (None, c3, root3) \<Rightarrow>
                         (None, snd (ProcessEvent e c3 (EVT_TREE_ITEM_CHECKED, p)), root3)))))"

definition CheckItem :: "env \<Rightarrow> tree_ctrl \<Rightarrow> path \<Rightarrow> nat \<Rightarrow> error option \<times> tree_ctrl" where
  "CheckItem e c p checked =
     (case anchor c of
        None \<Rightarrow> (Some InvalidItem, c)
      | Some root \<Rightarrow>
          (case get_item root p of
             None \<Rightarrow> (Some InvalidItem, c)
           | Some item \<Rightarrow>
               if GetType item = 0 then (None, c)
               else if GetType item = 2 then
                 (if checked = 0 \<and> IsChecked item \<noteq> 0 then (None, c)
                  else (case UnCheckRadioParent e c p item checked of
                          (ok, err, c1, item1) \<Rightarrow>
                            if err \<noteq> None \<or> \<not> ok
                            then (err, c1\<lparr>anchor := Some (put_item root p item1)\<rparr>)
                            else (case CheckSameLevel e c1 (put_item root p item1) p 0 of
                                    (err', c2, root2) \<Rightarrow> (err', c2\<lparr>anchor := Some root2\<rparr>))))
               else (case CheckItem_checkbox e c root p item checked of
                       (err, c1, root1) \<Rightarrow> (err, c1\<lparr>anchor := Some root1\<rparr>))))"

subsection \<open>Predicates used by the statements\<close>

definition keeps :: "item_fields \<Rightarrow> item_fields \<Rightarrow> bool" where
  "keeps a a' =
     (it_type a' = it_type a \<and> it_checked a' = it_checked a \<and> it_hidden a' = it_hidden a \<and>
      it_isCollapsed a' = it_isCollapsed a \<and> it_is3State a' = it_is3State a)"

fun enable_post :: "bool \<Rightarrow> item \<Rightarrow> item \<Rightarrow> bool" where
  "enable_post en (Item a cs) (Item a' cs') =
     (keeps a a' \<and> (if en then it_enabled a' else \<not> IsEnabled (Item a' cs')) \<and>
      (if en \<and> it_type a = 2 \<and> it_checked a = 0 then cs' = cs
       else list_all2 (enable_post en) cs cs'))"

definition ctrl_same :: "tree_ctrl \<Rightarrow> tree_ctrl \<Rightarrow> bool" where
  "ctrl_same c c' = (c' = c\<lparr>dirty := dirty c', lineHeight := lineHeight c'\<rparr>)"

definition rchecked :: "item \<Rightarrow> bool" where
  "rchecked it = (GetType it = 2 \<and> IsChecked it \<noteq> 0)"

fun radio_ok :: "item \<Rightarrow> bool" where
  "radio_ok (Item a cs) = (length (filter rchecked cs) \<le> 1 \<and> (\<forall>c \<in> set cs. radio_ok c))"

fun rsame_tree :: "item \<Rightarrow> item \<Rightarrow> bool" where
  "rsame_tree (Item a cs) (Item a' cs') =
     (rchecked (Item a cs) = rchecked (Item a' cs') \<and> list_all2 rsame_tree cs cs')"

definition unchecked_post :: "item \<Rightarrow> item \<Rightarrow> bool" where
  "unchecked_post s s' =
     (it_type (flds s') = it_type (flds s) \<and> it_hidden (flds s') = it_hidden (flds s) \<and>
      it_enabled (flds s') = it_enabled (flds s) \<and> it_checked (flds s') = 0 \<and>
      list_all2 (enable_post False) (GetChildren s) (GetChildren s'))"


subsection \<open>Construction\<close>

text \<open>
  \<open>GenericTreeItem.__init__(parent, text, ct_type, wnd, image, selImage, data, separator,
  on_the_right)\<close>. \<open>wnd\<close> is the size of the embedded window, if there is one
  (\<open>SetWindow\<close> caches it and sets the item's height and width from it); the user data is
  not part of the model.
\<close>

definition GenericTreeItem ::
    "item option \<Rightarrow> string \<Rightarrow> int \<Rightarrow> (int \<times> int) option \<Rightarrow> int \<Rightarrow> int \<Rightarrow> bool \<Rightarrow> item" where
  "GenericTreeItem parent text' ct_type wnd img selImage separator =
     Item \<lparr> it_text = text',
            it_separator = separator,
            it_images = (img, selImage, NO_IMAGE, NO_IMAGE),
            it_checkedimages =
              (if ct_type > 0 then (Some 0, Some 1, Some 2, Some 3, Some 4)
               else (None, None, None, None, None)),
            it_x = 0,
            it_y = 0,
            it_width = (case wnd of None \<Rightarrow> 0 | Some size' \<Rightarrow> fst size'),
            it_height = (case wnd of None \<Rightarrow> 0 | Some size' \<Rightarrow> snd size' + 2),
            it_isCollapsed = True,
            it_hasHilight = False,
            it_hasPlus = False,
            it_isBold = False,
            it_isItalic = False,
            it_type = ct_type,
            it_is3State = False,
            it_checked = 0,
            it_enabled =
              (case parent of
                 None \<Rightarrow> True
               | Some par \<Rightarrow> \<not> (GetType par = 2 \<and> IsChecked par = 0)),
            it_hidden = False,
            it_wnd = (wnd \<noteq> None),
            it_windowsize = (case wnd of None \<Rightarrow> (0, 0) | Some size' \<Rightarrow> size'),
            it_attrFont = None \<rparr> []"

text \<open>The fields of a control after \<open>CustomTreeCtrl.__init__\<close> with the given style.\<close>

definition CustomTreeCtrl :: "nat \<Rightarrow> tree_ctrl" where
  "CustomTreeCtrl style =
     \<lparr> anchor = None, current = None, key_current = None, select_me = None,
       dirty = False, lineHeight = 10, indent = 15, spacing = 18,
       agwStyle = style, freezeCount = 0, absoluteWindows = (\<lambda>_. None),
       events = [], refreshes = 0, layouts = 0 \<rparr>"

text \<open>The positions on which no item is hidden, from the root to the item itself.\<close>

fun no_hidden_on :: "item \<Rightarrow> path \<Rightarrow> bool" where
  "no_hidden_on it [] = (\<not> IsHidden it)"
| "no_hidden_on it (i # p) =
     (\<not> IsHidden it \<and> i < length (GetChildren it) \<and> no_hidden_on (GetChildren it ! i) p)"

subsection \<open>A host and a small tree, for the examples\<close>

definition host :: env where
  "host = \<lparr> handler = (\<lambda>_ _. False),
            GetFullMultiLineTextExtent = (\<lambda>_ s. (7 * int (length s), 15)),
            imageListNormal = None,
            imageListCheck = (\<lambda>_. (16, 16)),
            GetSize = (200, 100),
            GetClientSize = (200, 100),
            GetViewStart = (0, 0),
            CalcUnscrolledPosition = (\<lambda>p. p),
            isMac = False \<rparr>"

text \<open>
  A laid-out root with two radio children \<open>A\<close> (checked) and \<open>B\<close>; \<open>A\<close> has a child
  \<open>A1\<close>, \<open>B\<close> a child \<open>B1\<close> that is disabled since \<open>B\<close> is not checked.
\<close>

definition placed :: "item \<Rightarrow> int \<Rightarrow> int \<Rightarrow> item" where
  "placed it x' y' =
     upd (\<lambda>a. a\<lparr>it_x := x', it_y := y', it_width := 30, it_height := 19,
                  it_isCollapsed := False\<rparr>) it"

definition demo_root :: item where
  "demo_root =
     Item (flds (placed (GenericTreeItem None ''root'' 0 None (- 1) (- 1) False) 33 2))
       [Item (flds (upd (\<lambda>a. a\<lparr>it_checked := 1\<rparr>)
                (placed (GenericTreeItem None ''A'' 2 None (- 1) (- 1) False) 48 21)))
          [placed (GenericTreeItem None ''A1'' 1 None (- 1) (- 1) False) 63 40],
        Item (flds (placed (GenericTreeItem None ''B'' 2 None (- 1) (- 1) False) 48 59))
          [upd (\<lambda>a. a\<lparr>it_enabled := False\<rparr>)
             (placed (GenericTreeItem None ''B1'' 1 None (- 1) (- 1) False) 63 78)]]"

definition demo :: tree_ctrl where
  "demo = (CustomTreeCtrl (TR_HAS_BUTTONS OR TR_HAS_VARIABLE_ROW_HEIGHT))
            \<lparr>anchor := Some demo_root, lineHeight := 19\<rparr>"

fun set_hidden_at :: "item \<Rightarrow> path \<Rightarrow> item" where
  "set_hidden_at it [] = Hide it True"
| "set_hidden_at it (i # p) =
     Item (flds it) ((GetChildren it)[i := set_hidden_at (GetChildren it ! i) p])"

text \<open>A host with a handler that processes every \<open>EVT_TREE_ITEM_CHECKING\<close> about \<open>A\<close>.\<close>

definition blocking_host :: env where
  "blocking_host = host\<lparr>handler := (\<lambda>h ev. ev = (EVT_TREE_ITEM_CHECKING, [0]))\<rparr>"


section \<open>Properties\<close>

lemmas hit_flag_defs =
  TREE_HITTEST_ABOVE_def TREE_HITTEST_BELOW_def TREE_HITTEST_NOWHERE_def
  TREE_HITTEST_TOLEFT_def TREE_HITTEST_TORIGHT_def

lemmas item_defs =
  upd_def IsHidden_def IsExpanded_def IsEnabled_def IsItemEnabled_def IsSelected_def
  GetType_def IsChecked_def GetValue_def Is3State_def Get3StateValue_def GetHeight_def
  SetHeight_def SetWidth_def HasChildren_def HasPlus_def

lemmas demo_defs =
  demo_def demo_root_def placed_def GenericTreeItem_def CustomTreeCtrl_def host_def
  NO_IMAGE_def

lemmas style_defs =
  HasAGWFlag_def HasButtons_def GetLineHeight_def TR_HAS_BUTTONS_def TR_MULTIPLE_def
  TR_EXTENDED_def TR_HAS_VARIABLE_ROW_HEIGHT_def TR_HIDE_ROOT_def TR_FULL_ROW_HIGHLIGHT_def
  TR_AUTO_CHECK_CHILD_def TR_AUTO_TOGGLE_CHILD_def TR_AUTO_CHECK_PARENT_def
  TR_ALIGN_WINDOWS_def TR_ALIGN_WINDOWS_RIGHT_def

subsection \<open>Hit testing\<close>





lemma HitTest_item_sound:
  "HitTest_item e c here point it flags level = (Some (q, hit), fl) \<Longrightarrow>
     \<exists>rel. q = here @ rel \<and> get_item it rel = Some hit \<and> no_hidden_on it rel"
  "HitTest_children e c here n point cs flags level = (Some (q, hit), fl) \<Longrightarrow>
     \<exists>k rel. k < length cs \<and> q = here @ (n + k) # rel \<and> get_item (cs ! k) rel = Some hit \<and>
       no_hidden_on (cs ! k) rel"
proof (induction e c here point it flags level and e c here n point cs flags level
       arbitrary: q hit fl and q hit fl rule: HitTest_item_HitTest_children.induct)
  case (1 e c here point a cs flags level)
  show ?case
  proof (cases "IsHidden (Item a cs)")
    case True
    with 1(3) show ?thesis by simp
  next
    case nh: False
    show ?thesis
    proof (cases "\<not> (level = 0 \<and> HasAGWFlag c TR_HIDE_ROOT)")
      case t: True
      show ?thesis
      proof (cases "snd point > it_y a \<and> snd point < it_y a + GetLineHeight c (Item a cs)")
        case True
        with 1(3) nh t have "q = here" "hit = Item a cs" by (auto simp: Let_def)
        with nh show ?thesis by (intro exI[of _ "[]"]) simp
      next
        case nr: False
        show ?thesis
        proof (cases "IsExpanded (Item a cs)")
          case False
          with 1(3) nh t nr show ?thesis by (auto simp: Let_def)
        next
          case True
          with 1(3) nh t nr
          have "HitTest_children e c here 0 point cs flags (level + 1) = (Some (q, hit), fl)"
            by (auto simp: Let_def)
          from 1(1)[OF nh t refl _ _ this] nr True
          obtain k rel where "k < length cs" "q = here @ k # rel"
            "get_item (cs ! k) rel = Some hit" "no_hidden_on (cs ! k) rel"
            by auto
          with nh show ?thesis by (intro exI[of _ "k # rel"]) simp
        qed
      qed
    next
      case f: False
      with 1(3) nh
      have "HitTest_children e c here 0 point cs flags (level + 1) = (Some (q, hit), fl)"
        by (auto simp: Let_def)
      from 1(2)[OF nh f this]
      obtain k rel where "k < length cs" "q = here @ k # rel"
        "get_item (cs ! k) rel = Some hit" "no_hidden_on (cs ! k) rel"
        by auto
      with nh show ?thesis by (intro exI[of _ "k # rel"]) simp
    qed
  qed
next
  case (2 e c here n point flags level)
  then show ?case by simp
next
  case (3 e c here n point child rest flags level)
  obtain r fl' where hc: "HitTest_item e c (here @ [n]) point child flags level = (r, fl')"
    by (cases "HitTest_item e c (here @ [n]) point child flags level")
  show ?case
  proof (cases r)
    case None
    with 3(3) hc
    have "HitTest_children e c here (Suc n) point rest fl' level = (Some (q, hit), fl)"
      by simp
    from 3(2)[OF hc[symmetric] None this]
    obtain k rel where "k < length rest" "q = here @ (Suc n + k) # rel"
      "get_item (rest ! k) rel = Some hit" "no_hidden_on (rest ! k) rel"
      by auto
    then show ?thesis by (intro exI[of _ "Suc k"] exI[of _ rel]) simp
  next
    case (Some res)
    with 3(3) hc have "res = (q, hit)" "fl' = fl" by auto
    with hc Some have "HitTest_item e c (here @ [n]) point child flags level = (Some (q, hit), fl)"
      by simp
    from 3(1)[OF this]
    obtain rel where "q = (here @ [n]) @ rel" "get_item child rel = Some hit"
      "no_hidden_on child rel" by auto
    then show ?thesis by (intro exI[of _ 0] exI[of _ rel]) simp
  qed
qed

lemma no_hidden_on_prefix:
  "no_hidden_on it (p @ s) \<Longrightarrow> get_item it p = Some x \<Longrightarrow> \<not> IsHidden x"
  by (induction it p rule: get_item.induct) (auto split: if_splits elim: no_hidden_on.elims)

lemma HitTest_sound:
  assumes "HitTest e c point = (Some (q, hit), fl)"
  shows "\<exists>root. anchor c = Some root \<and> get_item root q = Some hit \<and> no_hidden_on root q \<and>
           IsItemEnabled hit"
  using assms HitTest_item_sound(1)[of e c "[]" "CalcUnscrolledPosition e point" _ 0 0 q hit]
  by (auto simp: HitTest_def Let_def split: if_splits option.splits prod.splits)

lemma HitTest_inside:
  assumes "\<not> (fst point < 0 \<or> fst point > fst (GetSize e) \<or> snd point < 0 \<or>
              snd point > snd (GetSize e))"
    and "anchor c = Some root"
  shows "HitTest e c point =
     (case HitTest_item e c [] (CalcUnscrolledPosition e point) root 0 0 of
        (None, flags) \<Rightarrow> (None, TREE_HITTEST_NOWHERE)
      | (Some (p, hit), flags) \<Rightarrow>
          if \<not> IsItemEnabled hit then (None, flags) else (Some (p, hit), flags))"
  using assms by (simp add: HitTest_def Let_def)

text \<open>
  Claim C10. When the item found under a point of the window by \<open>GenericTreeItem.HitTest\<close>
  is disabled, \<open>CustomTreeCtrl.HitTest\<close> returns \<open>None\<close> with the flags computed for that
  item; and an item returned by \<open>CustomTreeCtrl.HitTest\<close> is enabled.
\<close>

theorem HitTest_disabled_item:
  "(\<not> (fst point < 0 \<or> fst point > fst (GetSize e) \<or> snd point < 0 \<or>
        snd point > snd (GetSize e)) \<and>
    anchor c = Some root \<and>
    HitTest_item e c [] (CalcUnscrolledPosition e point) root 0 0 = (Some (p, hit), flags) \<and>
    \<not> IsItemEnabled hit
    \<longrightarrow> HitTest e c point = (None, flags)) \<and>
   (HitTest e c point = (Some (q, hit'), flags') \<longrightarrow> IsItemEnabled hit')"
proof (intro conjI impI)
  assume a: "\<not> (fst point < 0 \<or> fst point > fst (GetSize e) \<or> snd point < 0 \<or>
        snd point > snd (GetSize e)) \<and>
    anchor c = Some root \<and>
    HitTest_item e c [] (CalcUnscrolledPosition e point) root 0 0 = (Some (p, hit), flags) \<and>
    \<not> IsItemEnabled hit"
  then show "HitTest e c point = (None, flags)"
    using HitTest_inside[of point e c root] by simp
next
  assume "HitTest e c point = (Some (q, hit'), flags')"
  from HitTest_sound[OF this] show "IsItemEnabled hit'" by blast
qed

lemma demo_HitTest_item_B1:
  "HitTest_item host demo [] (70, 80) demo_root 0 0 =
     (Some ([1, 0], the (get_item demo_root [1, 0])),
      TREE_HITTEST_ONITEMUPPERPART OR TREE_HITTEST_ONITEMCHECKICON)"
  by (simp add: demo_defs item_defs style_defs Let_def HitTest_row_def GetImage_def
      GetCheckedImage_def TreeItemIcon_Normal_def TreeItemIcon_Checked_def
      TREE_HITTEST_ONITEMUPPERPART_def TREE_HITTEST_ONITEMCHECKICON_def
      TREE_HITTEST_ONITEMLOWERPART_def)

lemma demo_HitTest_A:
  "HitTest host demo (50, 30) =
     (Some ([0], the (get_item demo_root [0])),
      TREE_HITTEST_ONITEMLOWERPART OR TREE_HITTEST_ONITEMCHECKICON)"
  by (simp add: HitTest_def demo_defs item_defs style_defs Let_def HitTest_row_def GetImage_def
      GetCheckedImage_def TreeItemIcon_Normal_def TreeItemIcon_Checked_def hit_flag_defs
      TREE_HITTEST_ONITEMUPPERPART_def TREE_HITTEST_ONITEMCHECKICON_def
      TREE_HITTEST_ONITEMLOWERPART_def)

theorem HitTest_disabled_item_witness:
  "\<not> IsItemEnabled (the (get_item demo_root [1, 0])) \<and>
   HitTest_item host demo [] (CalcUnscrolledPosition host (70, 80)) demo_root 0 0 =
     (Some ([1, 0], the (get_item demo_root [1, 0])),
      TREE_HITTEST_ONITEMUPPERPART OR TREE_HITTEST_ONITEMCHECKICON) \<and>
   HitTest host demo (70, 80) =
     (None, TREE_HITTEST_ONITEMUPPERPART OR TREE_HITTEST_ONITEMCHECKICON) \<and>
   HitTest host demo (50, 30) =
     (Some ([0], the (get_item demo_root [0])),
      TREE_HITTEST_ONITEMLOWERPART OR TREE_HITTEST_ONITEMCHECKICON) \<and>
   IsItemEnabled (the (get_item demo_root [0]))"
proof -
  have dis: "\<not> IsItemEnabled (the (get_item demo_root [1, 0]))"
    by (simp add: demo_defs item_defs)
  have cu: "CalcUnscrolledPosition host (70, 80) = (70, 80)"
    by (simp add: host_def)
  have ins: "\<not> (fst (70 :: int, 80 :: int) < 0 \<or> fst (70 :: int, 80 :: int) > fst (GetSize host) \<or>
                snd (70 :: int, 80 :: int) < 0 \<or> snd (70 :: int, 80 :: int) > snd (GetSize host))"
    by (simp add: host_def)
  have an: "anchor demo = Some demo_root"
    by (simp add: demo_def)
  have 1: "HitTest host demo (70, 80) =
      (None, TREE_HITTEST_ONITEMUPPERPART OR TREE_HITTEST_ONITEMCHECKICON)"
    using HitTest_disabled_item[of "(70, 80)" host demo demo_root "[1, 0]"
        "the (get_item demo_root [1, 0])"
        "TREE_HITTEST_ONITEMUPPERPART OR TREE_HITTEST_ONITEMCHECKICON"]
      dis ins an demo_HitTest_item_B1 cu
    by simp
  have 2: "IsItemEnabled (the (get_item demo_root [0]))"
    using HitTest_disabled_item[of "(50, 30)" host demo demo_root "[0]" _ _ "[0]"
        "the (get_item demo_root [0])"
        "TREE_HITTEST_ONITEMLOWERPART OR TREE_HITTEST_ONITEMCHECKICON"]
      demo_HitTest_A
    by simp
  show ?thesis using dis cu demo_HitTest_item_B1 demo_HitTest_A 1 2 by simp
qed

subsection \<open>Hidden items\<close>

lemma IsVisible_hidden:
  "anchor c = Some root \<Longrightarrow> get_item root p = Some it \<Longrightarrow> IsHidden it \<Longrightarrow>
   IsVisible e c p = Inr False"
  by (simp add: IsVisible_def)

lemma CalculateSize_hidden:
  "freezeCount c = 0 \<Longrightarrow> IsHidden it \<Longrightarrow>
   CalculateSize e c it level align = (None, c, SetHeight it 0)"
  by (simp add: CalculateSize_def)

text \<open>
  Claim C3, as stated, gives a hidden item the height 0 at every layout. \<open>CalculateSize\<close>
  tests the freeze count before it tests \<open>IsHidden\<close>: on a frozen control it marks the
  control dirty and returns, and the hidden item keeps the height it had.
\<close>

theorem hidden_item_excluded_counterexample:
  "IsHidden (Hide (the (get_item demo_root [0])) True) \<and>
   CalculateSize host (demo\<lparr>freezeCount := 1\<rparr>) (Hide (the (get_item demo_root [0])) True)
       (- 1) 0 =
     (None, demo\<lparr>freezeCount := 1, dirty := True\<rparr>, Hide (the (get_item demo_root [0])) True) \<and>
   GetHeight (snd (snd (CalculateSize host (demo\<lparr>freezeCount := 1\<rparr>)
       (Hide (the (get_item demo_root [0])) True) (- 1) 0))) = 19"
  by (simp add: CalculateSize_def demo_defs Hide_def item_defs)

text \<open>
  Claim C3, amended. Let the item at position \<open>p\<close> be hidden, whatever its \<open>_isCollapsed\<close>
  flag. Then \<open>IsVisible\<close> is false for it; \<open>HitTest\<close> returns neither this item nor an
  item below it, at any point; and, when the control is not frozen, \<open>CalculateSize\<close> leaves
  it with the height 0, for every level and alignment (on a frozen control
  \<open>CalculateSize\<close> changes no item).
\<close>

theorem hidden_item_excluded:
  assumes "anchor c = Some root" and "get_item root p = Some it" and "IsHidden it"
  shows "IsVisible e c p = Inr False \<and>
         (\<forall>point q hit flags. HitTest e c point = (Some (q, hit), flags) \<longrightarrow> \<not> prefix p q) \<and>
         (freezeCount c = 0 \<longrightarrow>
            (\<forall>level align. GetHeight (snd (snd (CalculateSize e c it level align))) = 0))"
proof (intro conjI allI impI)
  show "IsVisible e c p = Inr False"
    using assms by (rule IsVisible_hidden)
next
  fix point q hit flags
  assume "HitTest e c point = (Some (q, hit), flags)"
  from HitTest_sound[OF this] assms(1) have nh: "no_hidden_on root q" by auto
  show "\<not> prefix p q"
  proof
    assume "prefix p q"
    then obtain s where "q = p @ s" by (auto simp: prefix_def)
    with nh assms(2) have "\<not> IsHidden it" using no_hidden_on_prefix by blast
    with assms(3) show False by simp
  qed
next
  fix level align
  assume "freezeCount c = 0"
  then show "GetHeight (snd (snd (CalculateSize e c it level align))) = 0"
    using assms(3) by (simp add: CalculateSize_hidden SetHeight_def GetHeight_def upd_def)
qed

theorem hidden_item_excluded_witness:
  "anchor (demo\<lparr>anchor := Some (set_hidden_at demo_root [0])\<rparr>) =
     Some (set_hidden_at demo_root [0]) \<and>
   get_item (set_hidden_at demo_root [0]) [0] =
     Some (Hide (the (get_item demo_root [0])) True) \<and>
   IsHidden (Hide (the (get_item demo_root [0])) True) \<and>
   \<not> it_isCollapsed (flds (Hide (the (get_item demo_root [0])) True)) \<and>
   IsVisible host demo [0] = Inr True \<and>
   IsVisible host (demo\<lparr>anchor := Some (set_hidden_at demo_root [0])\<rparr>) [0] = Inr False \<and>
   fst (HitTest host demo (50, 30)) = Some ([0], the (get_item demo_root [0])) \<and>
   fst (HitTest host (demo\<lparr>anchor := Some (set_hidden_at demo_root [0])\<rparr>) (50, 30)) = None \<and>
   fst (HitTest host (demo\<lparr>anchor := Some (set_hidden_at demo_root [0])\<rparr>) (50, 65)) =
     Some ([1], the (get_item demo_root [1])) \<and>
   \<not> prefix [0 :: nat] [1] \<and>
   freezeCount (demo\<lparr>anchor := Some (set_hidden_at demo_root [0])\<rparr>) = 0 \<and>
   GetHeight (the (get_item demo_root [0])) = 19 \<and>
   GetHeight (snd (snd (CalculateSize host
       (demo\<lparr>anchor := Some (set_hidden_at demo_root [0])\<rparr>)
       (Hide (the (get_item demo_root [0])) True) (- 1) 0))) = 0"
proof -
  let ?c = "demo\<lparr>anchor := Some (set_hidden_at demo_root [0])\<rparr>"
  let ?h = "Hide (the (get_item demo_root [0])) True"
  have a: "anchor ?c = Some (set_hidden_at demo_root [0])" by simp
  have g: "get_item (set_hidden_at demo_root [0]) [0] = Some ?h"
    by (simp add: demo_defs Hide_def upd_def)
  have h: "IsHidden ?h" by (simp add: Hide_def item_defs)
  have nc: "\<not> it_isCollapsed (flds ?h)" by (simp add: demo_defs Hide_def upd_def)
  have fz: "freezeCount ?c = 0" by (simp add: demo_defs)
  note main = hidden_item_excluded[OF a g h, of host]
  have v: "IsVisible host ?c [0] = Inr False" using main by blast
  have v0: "IsVisible host demo [0] = Inr True"
    by (simp add: IsVisible_def GetBoundingRect_def demo_defs item_defs style_defs
        PIXELS_PER_UNIT_def Let_def)
  have t0: "fst (HitTest host demo (50, 30)) = Some ([0], the (get_item demo_root [0]))"
    using demo_HitTest_A by simp
  have t1: "fst (HitTest host ?c (50, 30)) = None"
    by (simp add: HitTest_def demo_defs item_defs style_defs Let_def Hide_def hit_flag_defs)
  have t2: "HitTest host ?c (50, 65) =
      (Some ([1], the (get_item demo_root [1])),
       TREE_HITTEST_ONITEMUPPERPART OR TREE_HITTEST_ONITEMCHECKICON)"
    by (simp add: HitTest_def demo_defs item_defs style_defs Let_def HitTest_row_def GetImage_def
      GetCheckedImage_def TreeItemIcon_Normal_def TreeItemIcon_Checked_def hit_flag_defs
      TREE_HITTEST_ONITEMUPPERPART_def TREE_HITTEST_ONITEMCHECKICON_def Hide_def
      TREE_HITTEST_ONITEMLOWERPART_def)
  have np: "\<not> prefix [0 :: nat] [1]" using main t2 by blast
  have sz: "GetHeight (snd (snd (CalculateSize host ?c ?h (- 1) 0))) = 0"
    using main fz by blast
  have h0: "GetHeight (the (get_item demo_root [0])) = 19"
    by (simp add: demo_defs item_defs)
  show ?thesis using a g h nc v v0 t0 t1 t2 np sz h0 fz by simp
qed

subsection \<open>Enabling and checking\<close>

lemma IsChecked_flds [simp]: "IsChecked it = it_checked (flds it)"
  by (simp add: IsChecked_def GetValue_def Get3StateValue_def Is3State_def)

lemma keeps_refl [simp]: "keeps a a"
  by (simp add: keeps_def)

lemma keeps_trans: "keeps a b \<Longrightarrow> keeps b c \<Longrightarrow> keeps a c"
  by (simp add: keeps_def)

lemma ctrl_same_refl [simp]: "ctrl_same c c"
  by (simp add: ctrl_same_def)

lemma ctrl_same_trans: "ctrl_same a b \<Longrightarrow> ctrl_same b c \<Longrightarrow> ctrl_same a c"
  unfolding ctrl_same_def
  by (cases a; cases b; cases c) simp

lemma ctrl_same_lineHeight [simp]: "ctrl_same c (c\<lparr>lineHeight := v\<rparr>)"
  by (simp add: ctrl_same_def)

lemma ctrl_same_dirty [simp]: "ctrl_same c (c\<lparr>dirty := v\<rparr>)"
  by (simp add: ctrl_same_def)

lemma CalculateSize_fst:
  "level < 0 \<Longrightarrow> fst (CalculateSize e c it level align) = None"
  by (simp add: CalculateSize_def Let_def)

lemma CalculateSize_ctrl:
  "level < 0 \<Longrightarrow> ctrl_same c (fst (snd (CalculateSize e c it level align)))"
  by (simp add: CalculateSize_def Let_def)

lemma CalculateSize_item:
  "level < 0 \<Longrightarrow> GetChildren (snd (snd (CalculateSize e c it level align))) = GetChildren it"
  "level < 0 \<Longrightarrow> it_type (flds (snd (snd (CalculateSize e c it level align)))) = it_type (flds it)"
  "level < 0 \<Longrightarrow> it_checked (flds (snd (snd (CalculateSize e c it level align)))) = it_checked (flds it)"
  "level < 0 \<Longrightarrow> it_hidden (flds (snd (snd (CalculateSize e c it level align)))) = it_hidden (flds it)"
  "level < 0 \<Longrightarrow> it_isCollapsed (flds (snd (snd (CalculateSize e c it level align)))) = it_isCollapsed (flds it)"
  "level < 0 \<Longrightarrow> it_is3State (flds (snd (snd (CalculateSize e c it level align)))) = it_is3State (flds it)"
  "level < 0 \<Longrightarrow> it_enabled (flds (snd (snd (CalculateSize e c it level align)))) = it_enabled (flds it)"
  "level < 0 \<Longrightarrow> it_hasHilight (flds (snd (snd (CalculateSize e c it level align)))) = it_hasHilight (flds it)"
  by (simp_all add: CalculateSize_def Let_def SetHeight_def SetWidth_def upd_def)

lemma EnableItem_res:
  obtains c' it' where "EnableItem e c it en tr = (None, c', it')" and "ctrl_same c c'"
    and "GetChildren it' = GetChildren it" and "keeps (flds it) (flds it')"
    and "if en then it_enabled (flds it') else \<not> IsEnabled it'"
proof -
  let ?r = "EnableItem e c it en tr"
  have 1: "fst ?r = None"
    by (simp add: EnableItem_def Let_def CalculateSize_fst)
  have 2: "ctrl_same c (fst (snd ?r))"
    by (simp add: EnableItem_def Let_def CalculateSize_ctrl)
  have 3: "GetChildren (snd (snd ?r)) = GetChildren it"
    by (simp add: EnableItem_def Let_def CalculateSize_item Enable_def SelectItem_False_def
        SetHilight_def upd_def)
  have 4: "keeps (flds it) (flds (snd (snd ?r)))"
    by (auto simp add: EnableItem_def Let_def Enable_def SelectItem_False_def
        SetHilight_def upd_def keeps_def CalculateSize_item)
  have 5: "if en then it_enabled (flds (snd (snd ?r))) else \<not> IsEnabled (snd (snd ?r))"
    by (auto simp add: EnableItem_def Let_def Enable_def SelectItem_False_def
        SetHilight_def upd_def keeps_def IsEnabled_def IsHidden_def CalculateSize_item)
  show ?thesis
    by (rule that[OF _ 2 3 4 5]) (use 1 in \<open>simp add: prod_eq_iff\<close>)
qed

lemma EnableChildren_res:
  "\<exists>c' cs'. EnableChildren e c it en = (None, c', Item (flds it) cs') \<and> ctrl_same c c' \<and>
     (if en \<and> it_type (flds it) = 2 \<and> it_checked (flds it) = 0 then cs' = GetChildren it
      else list_all2 (enable_post en) (GetChildren it) cs')"
  "\<exists>c' cs'. EnableChildren_loop e c tr pc cs en = (None, c', cs') \<and> ctrl_same c c' \<and>
     list_all2 (enable_post en) cs cs'"
proof (induction e c it en and e c tr pc cs en rule: EnableChildren_EnableChildren_loop.induct)
  case (1 e c a cs enable)
  show ?case
  proof (cases "GetType (Item a cs) = 2 \<and> enable \<and> IsChecked (Item a cs) = 0")
    case True
    then show ?thesis by (simp add: GetType_def)
  next
    case False
    from 1[OF refl False] obtain c' cs' where
      "EnableChildren_loop e c (IsExpanded (Item a cs)) (IsChecked (Item a cs) \<noteq> 0) cs enable =
         (None, c', cs')" "ctrl_same c c'" "list_all2 (enable_post enable) cs cs'"
      by blast
    with False show ?thesis by (auto simp: GetType_def)
  qed
next
  case (2 e c torefresh parent_checked enable)
  then show ?case by simp
next
  case (3 e c torefresh parent_checked ca ccs rest enable)
  obtain c1 child1 where ei: "EnableItem e c (Item ca ccs) enable torefresh = (None, c1, child1)"
    and s1: "ctrl_same c c1" and ch1: "GetChildren child1 = ccs"
    and k1: "keeps ca (flds child1)"
    and f1: "if enable then it_enabled (flds child1) else \<not> IsEnabled child1"
    using EnableItem_res[where e=e and c=c and it="Item ca ccs" and en=enable and tr=torefresh]
    by auto
  have g: "GetType_method_ne_2 \<or> (GetType child1 = 2 \<and> parent_checked)"
    by (simp add: GetType_method_ne_2_def)
  from 3(1)[OF ei[symmetric] refl refl g]
  obtain c2 ccs' where ec: "EnableChildren e c1 (Item (flds child1) ccs) enable =
       (None, c2, Item (flds child1) ccs')" and s2: "ctrl_same c1 c2"
    and p2: "if enable \<and> it_type (flds child1) = 2 \<and> it_checked (flds child1) = 0
             then ccs' = ccs else list_all2 (enable_post enable) ccs ccs'"
    by (auto simp del: EnableChildren.simps split: if_splits)
  have "(if GetType_method_ne_2 \<or> GetType child1 = 2 \<and> parent_checked
       then EnableChildren e c1 (Item (flds child1) ccs) enable else (None, c1, child1)) =
      (None, c2, Item (flds child1) ccs')"
    using g ec by simp
  from 3(2)[OF ei[symmetric] refl refl this[symmetric] refl refl]
  obtain c3 rest' where lp: "EnableChildren_loop e c2 torefresh parent_checked rest enable =
       (None, c3, rest')" and s3: "ctrl_same c2 c3"
    and p3: "list_all2 (enable_post enable) rest rest'"
    by (auto simp del: EnableChildren_loop.simps)
  have post: "enable_post enable (Item ca ccs) (Item (flds child1) ccs')"
    using k1 f1 p2 by (auto simp: keeps_def IsEnabled_def IsHidden_def)
  have "EnableChildren_loop e c torefresh parent_checked (Item ca ccs # rest) enable =
          (None, c3, Item (flds child1) ccs' # rest')"
    using ei g ec lp by simp
  with post p3 s1 s2 s3 show ?case
    by (auto intro: ctrl_same_trans)
qed

lemma get_item_append:
  "get_item root (p @ s) = (case get_item root p of None \<Rightarrow> None | Some t \<Rightarrow> get_item t s)"
  by (induction root p rule: get_item.induct) auto

lemma put_get_id: "get_item root p = Some t \<Longrightarrow> put_item root p t = root"
  by (induction root p rule: get_item.induct) (auto split: if_splits)

lemma get_put_below:
  "get_item root p = Some t \<Longrightarrow> get_item (put_item root p t') (p @ s) = get_item t' s"
  by (induction root p rule: get_item.induct) (auto split: if_splits)

lemma get_put_same:
  "get_item root p = Some t \<Longrightarrow> get_item (put_item root p t') p = Some t'"
  using get_put_below[of root p t t' "[]"] by simp

lemma put_put:
  "get_item root p = Some t \<Longrightarrow> put_item (put_item root p t1) p t2 = put_item root p t2"
  by (induction root p rule: get_item.induct) (auto split: if_splits)

lemma flds_put: "p \<noteq> [] \<Longrightarrow> flds (put_item root p t') = flds root"
  by (cases p) auto

lemma length_children_put:
  "p \<noteq> [] \<Longrightarrow> length (GetChildren (put_item root p t')) = length (GetChildren root)"
  by (cases p) auto

lemma get_put_parent:
  "get_item root q = Some par \<Longrightarrow> i < length (GetChildren par) \<Longrightarrow>
   get_item (put_item root (q @ [i]) t') q = Some (Item (flds par) ((GetChildren par)[i := t']))"
proof (induction root q rule: get_item.induct)
  case (1 it)
  then show ?case by simp
next
  case (2 it j p)
  then show ?case by (auto split: if_splits)
qed

lemma get_put_diverge:
  "i \<noteq> j \<Longrightarrow> get_item (put_item root (q @ i # r) t') (q @ j # s) = get_item root (q @ j # s)"
  by (induction q arbitrary: root) (auto simp: nth_list_update)

lemma get_item_butlast:
  "get_item root p = Some t \<Longrightarrow> p \<noteq> [] \<Longrightarrow>
   \<exists>par. get_item root (butlast p) = Some par \<and> last p < length (GetChildren par) \<and>
         GetChildren par ! last p = t"
proof -
  assume a: "get_item root p = Some t" "p \<noteq> []"
  then have "get_item root (butlast p @ [last p]) = Some t" by simp
  then show ?thesis
    by (auto simp: get_item_append split: option.splits if_splits)
qed

lemma ctrl_same_fields:
  assumes "ctrl_same c c'"
  shows "events c' = events c" "anchor c' = anchor c" "agwStyle c' = agwStyle c"
    "freezeCount c' = freezeCount c" "current c' = current c" "refreshes c' = refreshes c"
    "layouts c' = layouts c" "HasAGWFlag c' f = HasAGWFlag c f"
  using assms unfolding ctrl_same_def HasAGWFlag_def
  by (cases c; cases c'; simp)+

lemma ctrl_same_events_upd:
  "ctrl_same c c' \<Longrightarrow> ctrl_same (c\<lparr>events := ev\<rparr>) (c'\<lparr>events := ev\<rparr>)"
  unfolding ctrl_same_def by (cases c; cases c'; simp)

lemma Check_simps:
  "checked = 0 \<or> checked = 1 \<Longrightarrow> Check it checked = (None, upd (\<lambda>a. a\<lparr>it_checked := checked\<rparr>) it)"
  "checked \<noteq> 0 \<Longrightarrow> checked \<noteq> 1 \<Longrightarrow> Check it checked = (Some AssertionError, it)"
  by (auto simp: Check_def)

lemma CheckItem2_proj:
  "ctrl_same c (fst (snd (CheckItem2 e c it checked tr)))"
  "GetChildren (snd (snd (CheckItem2 e c it checked tr))) = GetChildren it"
  "it_type (flds (snd (snd (CheckItem2 e c it checked tr)))) = it_type (flds it)"
  "it_hidden (flds (snd (snd (CheckItem2 e c it checked tr)))) = it_hidden (flds it)"
  "it_enabled (flds (snd (snd (CheckItem2 e c it checked tr)))) = it_enabled (flds it)"
  "it_is3State (flds (snd (snd (CheckItem2 e c it checked tr)))) = it_is3State (flds it)"
  "it_isCollapsed (flds (snd (snd (CheckItem2 e c it checked tr)))) = it_isCollapsed (flds it)"
  "it_checked (flds (snd (snd (CheckItem2 e c it checked tr)))) =
     (if GetType it = 0 \<or> (checked \<noteq> 0 \<and> checked \<noteq> 1) then it_checked (flds it) else checked)"
  "fst (CheckItem2 e c it checked tr) =
     (if GetType it \<noteq> 0 \<and> checked \<noteq> 0 \<and> checked \<noteq> 1 then Some AssertionError else None)"
  by (cases "checked = 0 \<or> checked = 1";
      auto simp: CheckItem2_def Check_simps CalculateSize_item CalculateSize_fst
        CalculateSize_ctrl upd_def split: prod.splits)+

lemma rsame_tree_refl [simp]: "rsame_tree t t"
  by (induction t) (auto simp: list_all2_same)

lemma rsame_tree_sym: "rsame_tree t t' \<Longrightarrow> rsame_tree t' t"
proof (induction t t' rule: rsame_tree.induct)
  case (1 a cs a' cs')
  from 1(2) have l: "list_all2 rsame_tree cs cs'" and h: "rchecked (Item a cs) = rchecked (Item a' cs')"
    by auto
  have "list_all2 (\<lambda>x y. rsame_tree y x) cs cs'"
    using l 1(1) by (rule list.rel_mono_strong) auto
  then have "list_all2 rsame_tree cs' cs" by (simp add: list_all2_conv_all_nth)
  with h show ?case by simp
qed

lemma rsame_tree_trans: "rsame_tree t t' \<Longrightarrow> rsame_tree t' t'' \<Longrightarrow> rsame_tree t t''"
proof (induction t t' arbitrary: t'' rule: rsame_tree.induct)
  case (1 a cs a' cs')
  obtain a'' cs'' where t'': "t'' = Item a'' cs''" by (cases t'')
  from 1(2) have l: "list_all2 rsame_tree cs cs'" and h: "rchecked (Item a cs) = rchecked (Item a' cs')"
    by auto
  from 1(3) t'' have l': "list_all2 rsame_tree cs' cs''"
    and h': "rchecked (Item a' cs') = rchecked (Item a'' cs'')" by auto
  have "list_all2 rsame_tree cs cs''"
    unfolding list_all2_conv_all_nth
  proof (intro conjI allI impI)
    show "length cs = length cs''" using l l' by (simp add: list_all2_lengthD)
  next
    fix i assume i: "i < length cs"
    then have i': "i < length cs'" using l by (simp add: list_all2_lengthD)
    have a1: "rsame_tree (cs ! i) (cs' ! i)" using l i by (simp add: list_all2_nthD)
    have a2: "rsame_tree (cs' ! i) (cs'' ! i)" using l' i' by (simp add: list_all2_nthD)
    show "rsame_tree (cs ! i) (cs'' ! i)"
      using 1(1)[OF _ _ a1 a2] i i' by simp
  qed
  with h h' t'' show ?case by (simp add: rchecked_def GetType_def)
qed

lemma rchecked_head: "rsame_tree t t' \<Longrightarrow> rchecked t = rchecked t'"
  by (cases t; cases t') (simp add: rchecked_def GetType_def)

lemma map_rchecked: "list_all2 rsame_tree cs cs' \<Longrightarrow> map rchecked cs = map rchecked cs'"
  by (induction rule: list_all2_induct) (auto simp: rchecked_head)

lemma filter_length_map: "length (filter P xs) = length (filter id (map P xs))"
  by (induction xs) auto

lemma radio_ok_rsame: "rsame_tree t t' \<Longrightarrow> radio_ok t = radio_ok t'"
proof (induction t t' rule: rsame_tree.induct)
  case (1 a cs a' cs')
  from 1(2) have l: "list_all2 rsame_tree cs cs'" by simp
  have "length (filter rchecked cs) = length (filter id (map rchecked cs))"
    by (rule filter_length_map)
  also have "\<dots> = length (filter id (map rchecked cs'))"
    by (simp only: map_rchecked[OF l])
  also have "\<dots> = length (filter rchecked cs')"
    by (rule filter_length_map[symmetric])
  finally have c: "length (filter rchecked cs) = length (filter rchecked cs')" .
  have len: "length cs = length cs'" using l by (simp add: list_all2_lengthD)
  have "(\<forall>c \<in> set cs. radio_ok c) = (\<forall>c \<in> set cs'. radio_ok c)"
  proof -
    have "\<And>i. i < length cs \<Longrightarrow> radio_ok (cs ! i) = radio_ok (cs' ! i)"
      using 1(1) l len by (simp add: list_all2_nthD)
    then show ?thesis using len by (auto simp: all_set_conv_all_nth)
  qed
  with c show ?case by simp
qed

lemma radio_ok_children:
  "list_all2 rsame_tree cs cs' \<Longrightarrow> radio_ok (Item a cs) = radio_ok (Item a' cs')"
proof -
  assume l: "list_all2 rsame_tree cs cs'"
  have "rsame_tree (Item a cs) (Item a cs')" using l by (simp add: rchecked_def GetType_def)
  from radio_ok_rsame[OF this] show ?thesis by simp
qed

lemma rsame_put:
  "get_item root q = Some t \<Longrightarrow> rsame_tree t t' \<Longrightarrow> rsame_tree root (put_item root q t')"
proof (induction root q rule: get_item.induct)
  case (1 it)
  then show ?case by simp
next
  case (2 it i p)
  then have i: "i < length (GetChildren it)" and g: "get_item (GetChildren it ! i) p = Some t"
    by (auto split: if_splits)
  have r: "rsame_tree (GetChildren it ! i) (put_item (GetChildren it ! i) p t')"
    using 2(1)[OF i g 2(3)] .
  have "list_all2 rsame_tree (GetChildren it) ((GetChildren it)[i := put_item (GetChildren it ! i) p t'])"
    using i r by (auto simp: list_all2_conv_all_nth nth_list_update)
  then show ?case by (cases it) (auto simp: rchecked_def GetType_def)
qed

lemma enable_post_rsame: "enable_post en t t' \<Longrightarrow> rsame_tree t t'"
proof (induction en t t' rule: enable_post.induct)
  case (1 en a cs a' cs')
  from 1(2) have k: "keeps a a'" by simp
  have ch: "list_all2 rsame_tree cs cs'"
  proof (cases "en \<and> it_type a = 2 \<and> it_checked a = 0")
    case True
    with 1(2) show ?thesis by (simp add: list_all2_same)
  next
    case False
    with 1(2) have "list_all2 (enable_post en) cs cs'" by auto
    then show ?thesis using 1(1)[OF False] by (rule list.rel_mono_strong)
  qed
  with k show ?case by (simp add: rchecked_def GetType_def keeps_def)
qed

lemma ProcessEvent_simps:
  "fst (ProcessEvent e c ev) = handler e (events c) ev"
  "snd (ProcessEvent e c ev) = c\<lparr>events := events c @ [ev]\<rparr>"
  by (simp_all add: ProcessEvent_def)

lemma UnCheckRadioParent_blocked:
  "handler e (events c) (EVT_TREE_ITEM_CHECKING, p) \<Longrightarrow>
   UnCheckRadioParent e c p it checked =
     (False, None, c\<lparr>events := events c @ [(EVT_TREE_ITEM_CHECKING, p)]\<rparr>, it)"
  by (simp add: UnCheckRadioParent_def ProcessEvent_def)

lemma UnCheckRadioParent_assert:
  "\<not> handler e (events c) (EVT_TREE_ITEM_CHECKING, p) \<Longrightarrow> checked \<noteq> 0 \<Longrightarrow> checked \<noteq> 1 \<Longrightarrow>
   UnCheckRadioParent e c p it checked =
     (False, Some AssertionError, c\<lparr>events := events c @ [(EVT_TREE_ITEM_CHECKING, p)]\<rparr>, it)"
  by (simp add: UnCheckRadioParent_def ProcessEvent_def Check_simps)

lemma UnCheckRadioParent_ok:
  assumes nh: "\<not> handler e (events c) (EVT_TREE_ITEM_CHECKING, p)"
    and ck: "checked = 0 \<or> checked = 1"
  shows "\<exists>c2 cs'. UnCheckRadioParent e c p it checked =
           (True, None, c2, Item ((flds it)\<lparr>it_checked := checked\<rparr>) cs') \<and>
         ctrl_same (c\<lparr>events := events c @
             [(EVT_TREE_ITEM_CHECKING, p), (EVT_TREE_ITEM_CHECKED, p)]\<rparr>) c2 \<and>
         list_all2 (enable_post (checked \<noteq> 0)) (GetChildren it) cs'"
proof -
  let ?c1 = "c\<lparr>events := events c @ [(EVT_TREE_ITEM_CHECKING, p)]\<rparr>"
  let ?it1 = "upd (\<lambda>a. a\<lparr>it_checked := checked\<rparr>) it"
  from EnableChildren_res(1)[of e ?c1 ?it1 "checked \<noteq> 0"]
  obtain c' cs' where ec: "EnableChildren e ?c1 ?it1 (checked \<noteq> 0) = (None, c', Item (flds ?it1) cs')"
    and cs: "ctrl_same ?c1 c'"
    and po: "if checked \<noteq> 0 \<and> it_type (flds ?it1) = 2 \<and> it_checked (flds ?it1) = 0
             then cs' = GetChildren ?it1
             else list_all2 (enable_post (checked \<noteq> 0)) (GetChildren ?it1) cs'"
    by blast
  have po': "list_all2 (enable_post (checked \<noteq> 0)) (GetChildren it) cs'"
    using po by (auto simp: upd_def split: if_splits)
  let ?c2 = "c'\<lparr>events := events c' @ [(EVT_TREE_ITEM_CHECKED, p)]\<rparr>"
  have "UnCheckRadioParent e c p it checked = (True, None, ?c2, Item (flds ?it1) cs')"
    using nh ck ec by (simp add: UnCheckRadioParent_def ProcessEvent_def Check_simps)
  moreover have "ctrl_same (c\<lparr>events := events c @
             [(EVT_TREE_ITEM_CHECKING, p), (EVT_TREE_ITEM_CHECKED, p)]\<rparr>) ?c2"
    using ctrl_same_events_upd[OF cs, of "events c' @ [(EVT_TREE_ITEM_CHECKED, p)]"]
      ctrl_same_fields(1)[OF cs]
    by simp
  ultimately show ?thesis using po' by (auto simp: upd_def)
qed

lemma CheckSameLevel_loop_res:
  "\<exists>c' cs'. CheckSameLevel_loop e c tr idx n cs 0 = (None, c', cs') \<and> ctrl_same c c' \<and>
     length cs' = length cs \<and>
     (\<forall>k<length cs. if GetType (cs ! k) = 2 \<and> n + k \<noteq> idx then unchecked_post (cs ! k) (cs' ! k)
                     else cs' ! k = cs ! k)"
proof (induction cs arbitrary: c n)
  case Nil
  then show ?case by simp
next
  case (Cons child rest)
  show ?case
  proof (cases "GetType child = 2 \<and> n \<noteq> idx")
    case False
    from Cons[of c "Suc n"] obtain c' rest' where
      lp: "CheckSameLevel_loop e c tr idx (Suc n) rest 0 = (None, c', rest')"
      and cs: "ctrl_same c c'" and len: "length rest' = length rest"
      and al: "\<forall>k<length rest. if GetType (rest ! k) = 2 \<and> Suc n + k \<noteq> idx
                 then unchecked_post (rest ! k) (rest' ! k) else rest' ! k = rest ! k"
      by blast
    have "CheckSameLevel_loop e c tr idx n (child # rest) 0 = (None, c', child # rest')"
      using False lp by auto
    moreover have "\<forall>k<length (child # rest).
        if GetType ((child # rest) ! k) = 2 \<and> n + k \<noteq> idx
        then unchecked_post ((child # rest) ! k) ((child # rest') ! k)
        else (child # rest') ! k = (child # rest) ! k"
    proof (intro allI impI)
      fix k assume "k < length (child # rest)"
      then show "if GetType ((child # rest) ! k) = 2 \<and> n + k \<noteq> idx
        then unchecked_post ((child # rest) ! k) ((child # rest') ! k)
        else (child # rest') ! k = (child # rest) ! k"
        using False al by (cases k) auto
    qed
    ultimately show ?thesis using cs len by auto
  next
    case True
    obtain err c1 child1 where r0: "CheckItem2 e c child 0 tr = (err, c1, child1)"
      by (cases "CheckItem2 e c child 0 tr") auto
    have "err = None" using CheckItem2_proj(9)[of e c child 0 tr] r0 by simp
    with r0 have r: "CheckItem2 e c child 0 tr = (None, c1, child1)" by simp
    have s1: "ctrl_same c c1" using CheckItem2_proj(1)[of c e child 0 tr] r by simp
    have p1: "GetChildren child1 = GetChildren child" "it_type (flds child1) = it_type (flds child)"
      "it_hidden (flds child1) = it_hidden (flds child)"
      "it_enabled (flds child1) = it_enabled (flds child)"
      "it_checked (flds child1) = 0"
      using CheckItem2_proj(2,3,4,5,8)[of e c child 0 tr] r True by (simp_all add: GetType_def)
    from EnableChildren_res(1)[of e c1 child1 False]
    obtain c2 ccs' where ec: "EnableChildren e c1 child1 False = (None, c2, Item (flds child1) ccs')"
      and s2: "ctrl_same c1 c2"
      and po: "list_all2 (enable_post False) (GetChildren child1) ccs'"
      by auto
    from Cons[of c2 "Suc n"] obtain c' rest' where
      lp: "CheckSameLevel_loop e c2 tr idx (Suc n) rest 0 = (None, c', rest')"
      and s3: "ctrl_same c2 c'" and len: "length rest' = length rest"
      and al: "\<forall>k<length rest. if GetType (rest ! k) = 2 \<and> Suc n + k \<noteq> idx
                 then unchecked_post (rest ! k) (rest' ! k) else rest' ! k = rest ! k"
      by blast
    have eq: "CheckSameLevel_loop e c tr idx n (child # rest) 0 =
                (None, c', Item (flds child1) ccs' # rest')"
      using True r ec lp by (simp add: GetType_method_ne_2_def)
    have up: "unchecked_post child (Item (flds child1) ccs')"
      using True po p1 by (simp add: unchecked_post_def)
    have "\<forall>k<length (child # rest).
        if GetType ((child # rest) ! k) = 2 \<and> n + k \<noteq> idx
        then unchecked_post ((child # rest) ! k) ((Item (flds child1) ccs' # rest') ! k)
        else (Item (flds child1) ccs' # rest') ! k = (child # rest) ! k"
    proof (intro allI impI)
      fix k assume "k < length (child # rest)"
      then show "if GetType ((child # rest) ! k) = 2 \<and> n + k \<noteq> idx
        then unchecked_post ((child # rest) ! k) ((Item (flds child1) ccs' # rest') ! k)
        else (Item (flds child1) ccs' # rest') ! k = (child # rest) ! k"
        using True al up by (cases k) auto
    qed
    with eq len s1 s2 s3 show ?thesis
      by (auto intro: ctrl_same_trans)
  qed
qed

lemma put_put_prefix: "put_item (put_item root (q @ r) t) q X = put_item root q X"
proof (induction q arbitrary: root)
  case Nil
  then show ?case by simp
next
  case (Cons j q)
  show ?case
  proof (cases "j < length (GetChildren root)")
    case True
    then show ?thesis using Cons by simp
  next
    case False
    then show ?thesis by (simp add: list_update_beyond)
  qed
qed

lemma get_item_snoc:
  "get_item root (q @ [k]) = Some s \<longleftrightarrow>
     (\<exists>par. get_item root q = Some par \<and> k < length (GetChildren par) \<and> GetChildren par ! k = s)"
  by (auto simp: get_item_append split: option.splits if_splits)

lemma CheckItem_radio_blocked:
  assumes an: "anchor c = Some root" and g: "get_item root p = Some it" and ty: "GetType it = 2"
    and nu: "\<not> (checked = 0 \<and> IsChecked it \<noteq> 0)"
    and h: "handler e (events c) (EVT_TREE_ITEM_CHECKING, p)"
  shows "CheckItem e c p checked =
           (None, c\<lparr>events := events c @ [(EVT_TREE_ITEM_CHECKING, p)]\<rparr>)"
  using an g ty nu UnCheckRadioParent_blocked[OF h, of it checked] put_get_id[OF g]
  by (auto simp add: CheckItem_def)

lemma CheckItem_radio_assert:
  assumes an: "anchor c = Some root" and g: "get_item root p = Some it" and ty: "GetType it = 2"
    and nh: "\<not> handler e (events c) (EVT_TREE_ITEM_CHECKING, p)"
    and ck: "checked \<noteq> 0" "checked \<noteq> 1"
  shows "CheckItem e c p checked =
           (Some AssertionError, c\<lparr>events := events c @ [(EVT_TREE_ITEM_CHECKING, p)]\<rparr>)"
  using an g ty ck UnCheckRadioParent_assert[OF nh ck, of it] put_get_id[OF g]
  by (auto simp add: CheckItem_def)

text \<open>The steps of \<open>CheckItem\<close> on a radio button whose notification is not processed.\<close>

lemma CheckItem_radio_steps:
  assumes an: "anchor c = Some root" and g: "get_item root p = Some it" and ty: "GetType it = 2"
    and ck: "checked = 0 \<or> checked = 1" and nu: "\<not> (checked = 0 \<and> IsChecked it \<noteq> 0)"
    and nh: "\<not> handler e (events c) (EVT_TREE_ITEM_CHECKING, p)"
  shows "\<exists>c1 it1 c' root'.
     UnCheckRadioParent e c p it checked = (True, None, c1, it1) \<and>
     flds it1 = (flds it)\<lparr>it_checked := checked\<rparr> \<and>
     list_all2 (enable_post (checked \<noteq> 0)) (GetChildren it) (GetChildren it1) \<and>
     events c1 = events c @ [(EVT_TREE_ITEM_CHECKING, p), (EVT_TREE_ITEM_CHECKED, p)] \<and>
     CheckSameLevel e c1 (put_item root p it1) p 0 = (None, c', root') \<and>
     CheckItem e c p checked = (None, c'\<lparr>anchor := Some root'\<rparr>) \<and>
     events c' = events c1 \<and> agwStyle c' = agwStyle c \<and> freezeCount c' = freezeCount c \<and>
     (p = [] \<longrightarrow> root' = it1) \<and>
     (p \<noteq> [] \<longrightarrow>
        (\<exists>par cs'. get_item root (butlast p) = Some par \<and> last p < length (GetChildren par) \<and>
           GetChildren par ! last p = it \<and>
           root' = put_item root (butlast p) (Item (flds par) cs') \<and>
           length cs' = length (GetChildren par) \<and> cs' ! last p = it1 \<and>
           (\<forall>k<length cs'. k \<noteq> last p \<longrightarrow>
              (if GetType (GetChildren par ! k) = 2
               then unchecked_post (GetChildren par ! k) (cs' ! k)
               else cs' ! k = GetChildren par ! k))))"
proof -
  let ?ev = "events c @ [(EVT_TREE_ITEM_CHECKING, p), (EVT_TREE_ITEM_CHECKED, p)]"
  from UnCheckRadioParent_ok[OF nh ck, of it] obtain c2 cs1 where
    u: "UnCheckRadioParent e c p it checked =
          (True, None, c2, Item ((flds it)\<lparr>it_checked := checked\<rparr>) cs1)"
    and s2: "ctrl_same (c\<lparr>events := ?ev\<rparr>) c2"
    and po: "list_all2 (enable_post (checked \<noteq> 0)) (GetChildren it) cs1"
    by blast
  let ?it1 = "Item ((flds it)\<lparr>it_checked := checked\<rparr>) cs1"
  let ?root1 = "put_item root p ?it1"
  have f1: "flds ?it1 = (flds it)\<lparr>it_checked := checked\<rparr>" by simp
  have po1: "list_all2 (enable_post (checked \<noteq> 0)) (GetChildren it) (GetChildren ?it1)"
    using po by simp
  have ev2: "events c2 = ?ev" using ctrl_same_fields(1)[OF s2] by simp
  show ?thesis
  proof (cases "p = []")
    case True
    have csl: "CheckSameLevel e c2 ?root1 p 0 = (None, c2, ?it1)"
      using True by (simp add: CheckSameLevel_def)
    have res: "CheckItem e c p checked = (None, c2\<lparr>anchor := Some ?it1\<rparr>)"
      using an g ty nu u csl by (auto simp add: CheckItem_def)
    have st: "agwStyle c2 = agwStyle c" "freezeCount c2 = freezeCount c"
      using ctrl_same_fields(3,4)[OF s2] by simp_all
    show ?thesis
      apply (rule exI[of _ c2])
      apply (rule exI[of _ ?it1])
      apply (rule exI[of _ c2])
      apply (rule exI[of _ ?it1])
      apply (intro conjI)
                apply (rule u)
               apply (rule f1)
              apply (rule po1)
             apply (rule ev2)
            apply (rule csl)
           apply (rule res)
          apply (rule refl)
         apply (rule st)
        apply (rule st)
       apply simp
      apply (simp add: True)
      done
  next
    case False
    from get_item_butlast[OF g False] obtain par where gp: "get_item root (butlast p) = Some par"
      and lt: "last p < length (GetChildren par)" and nth: "GetChildren par ! last p = it"
      by blast
    let ?cs0 = "(GetChildren par)[last p := ?it1]"
    have pp: "butlast p @ [last p] = p" using False by simp
    have gp1: "get_item ?root1 (butlast p) = Some (Item (flds par) ?cs0)"
      using get_put_parent[OF gp lt, of ?it1] pp by simp
    from CheckSameLevel_loop_res[of e c2 "IsExpanded (Item (flds par) ?cs0)" "last p" 0 ?cs0]
    obtain c3 cs' where lp: "CheckSameLevel_loop e c2 (IsExpanded (Item (flds par) ?cs0)) (last p) 0 ?cs0 0 =
          (None, c3, cs')" and s3: "ctrl_same c2 c3" and len: "length cs' = length ?cs0"
      and al: "\<forall>k<length ?cs0. if GetType (?cs0 ! k) = 2 \<and> 0 + k \<noteq> last p
                 then unchecked_post (?cs0 ! k) (cs' ! k) else cs' ! k = ?cs0 ! k"
      by blast
    let ?root' = "put_item root (butlast p) (Item (flds par) cs')"
    have pput: "put_item ?root1 (butlast p) (Item (flds par) cs') = ?root'"
      using put_put_prefix[of root "butlast p" "[last p]" ?it1 "Item (flds par) cs'"] pp by simp
    have csl: "CheckSameLevel e c2 ?root1 p 0 = (None, c3, ?root')"
      using False gp1 lp pput by (simp add: CheckSameLevel_def Let_def)
    have res: "CheckItem e c p checked = (None, c3\<lparr>anchor := Some ?root'\<rparr>)"
      using an g ty nu u csl by (auto simp add: CheckItem_def)
    have s: "ctrl_same (c\<lparr>events := ?ev\<rparr>) c3" using s2 s3 by (rule ctrl_same_trans)
    have ev3: "events c3 = events c2" using ctrl_same_fields(1)[OF s3] by simp
    have st: "agwStyle c3 = agwStyle c" "freezeCount c3 = freezeCount c"
      using ctrl_same_fields(3,4)[OF s] by simp_all
    have len': "length cs' = length (GetChildren par)" using len by simp
    have l1: "cs' ! last p = ?it1" using al lt by simp
    have l2: "\<forall>k<length cs'. k \<noteq> last p \<longrightarrow>
             (if GetType (GetChildren par ! k) = 2
              then unchecked_post (GetChildren par ! k) (cs' ! k)
              else cs' ! k = GetChildren par ! k)"
      using al len by auto
    have ex: "\<exists>par cs'a. get_item root (butlast p) = Some par \<and> last p < length (GetChildren par) \<and>
           GetChildren par ! last p = it \<and>
           ?root' = put_item root (butlast p) (Item (flds par) cs'a) \<and>
           length cs'a = length (GetChildren par) \<and> cs'a ! last p = ?it1 \<and>
           (\<forall>k<length cs'a. k \<noteq> last p \<longrightarrow>
              (if GetType (GetChildren par ! k) = 2
               then unchecked_post (GetChildren par ! k) (cs'a ! k)
               else cs'a ! k = GetChildren par ! k))"
      apply (rule exI[of _ par])
      apply (rule exI[of _ cs'])
      apply (intro conjI)
            apply (rule gp)
           apply (rule lt)
          apply (rule nth)
         apply (rule refl)
        apply (rule len')
       apply (rule l1)
      apply (rule l2)
      done
    show ?thesis
      apply (rule exI[of _ c2])
      apply (rule exI[of _ ?it1])
      apply (rule exI[of _ c3])
      apply (rule exI[of _ ?root'])
      apply (intro conjI)
                apply (rule u)
               apply (rule f1)
              apply (rule po1)
             apply (rule ev2)
            apply (rule csl)
           apply (rule res)
          apply (rule ev3)
         apply (rule st)
        apply (rule st)
       apply (simp add: False)
      apply (rule impI)
      apply (rule ex)
      done
  qed
qed

text \<open>The target and its siblings after the call, by position.\<close>

lemma CheckItem_radio_siblings:
  assumes gp: "get_item root (butlast p) = Some par" and lt: "last p < length (GetChildren par)"
    and ne: "p \<noteq> []"
    and len: "length cs' = length (GetChildren par)" and l1: "cs' ! last p = it1"
    and l2: "\<forall>k<length cs'. k \<noteq> last p \<longrightarrow>
              (if GetType (GetChildren par ! k) = 2
               then unchecked_post (GetChildren par ! k) (cs' ! k)
               else cs' ! k = GetChildren par ! k)"
  shows "get_item (put_item root (butlast p) (Item (flds par) cs')) p = Some it1"
    and "k \<noteq> last p \<Longrightarrow> get_item root (butlast p @ [k]) = Some s \<Longrightarrow>
         get_item (put_item root p it1) (butlast p @ [k]) = Some s \<and>
         (\<exists>s'. get_item (put_item root (butlast p) (Item (flds par) cs')) (butlast p @ [k]) = Some s' \<and>
               (if GetType s = 2 then unchecked_post s s' else s' = s))"
proof -
  let ?root' = "put_item root (butlast p) (Item (flds par) cs')"
  have gk: "get_item ?root' (butlast p @ [j]) = (if j < length cs' then Some (cs' ! j) else None)" for j
    using get_put_below[OF gp, of "Item (flds par) cs'" "[j]"] by simp
  have pp: "butlast p @ [last p] = p" using ne by simp
  show "get_item ?root' p = Some it1"
    using gk[of "last p"] pp lt len l1 by simp
  assume k: "k \<noteq> last p" and gs: "get_item root (butlast p @ [k]) = Some s"
  from gs gp have kl: "k < length (GetChildren par)" and ks: "GetChildren par ! k = s"
    by (auto simp: get_item_snoc)
  have g1: "get_item (put_item root (butlast p @ [last p]) it1) (butlast p @ [k]) = Some s"
    using get_put_diverge[of "last p" k root "butlast p" "[]" it1 "[]"] k gs by simp
  show "get_item (put_item root p it1) (butlast p @ [k]) = Some s \<and>
         (\<exists>s'. get_item ?root' (butlast p @ [k]) = Some s' \<and>
               (if GetType s = 2 then unchecked_post s s' else s' = s))"
    using g1 pp kl ks k l2 len gk[of k] by auto
qed






text \<open>The call on a radio button, with \<open>checked = True\<close>.\<close>

lemma CheckItem_radio_final:
  assumes "anchor c = Some root" and "get_item root p = Some it" and "GetType it = 2"
  shows "if handler e (events c) (EVT_TREE_ITEM_CHECKING, p)
         then CheckItem e c p 1 =
                (None, c\<lparr>events := events c @ [(EVT_TREE_ITEM_CHECKING, p)]\<rparr>)
         else (\<exists>c1 it1 c' root'.
            UnCheckRadioParent e c p it 1 = (True, None, c1, it1) \<and>
            flds it1 = (flds it)\<lparr>it_checked := 1\<rparr> \<and>
            list_all2 (enable_post True) (GetChildren it) (GetChildren it1) \<and>
            events c1 = events c @ [(EVT_TREE_ITEM_CHECKING, p), (EVT_TREE_ITEM_CHECKED, p)] \<and>
            CheckSameLevel e c1 (put_item root p it1) p 0 = (None, c', root') \<and>
            events c' = events c1 \<and>
            CheckItem e c p 1 = (None, c'\<lparr>anchor := Some root'\<rparr>) \<and>
            get_item root' p = Some it1 \<and>
            (\<forall>k s. p \<noteq> [] \<and> k \<noteq> last p \<and> get_item root (butlast p @ [k]) = Some s \<longrightarrow>
               get_item (put_item root p it1) (butlast p @ [k]) = Some s \<and>
               (\<exists>s'. get_item root' (butlast p @ [k]) = Some s' \<and>
                  (if GetType s = 2 then unchecked_post s s' else s' = s))))"
proof (cases "handler e (events c) (EVT_TREE_ITEM_CHECKING, p)")
  case True
  then show ?thesis
    using CheckItem_radio_blocked[OF assms _ True, of 1] by simp
next
  case False
  have ck: "(1 :: nat) = 0 \<or> (1 :: nat) = 1" by simp
  have nu: "\<not> ((1 :: nat) = 0 \<and> IsChecked it \<noteq> 0)" by simp
  from CheckItem_radio_steps[OF assms ck nu False]
  obtain c1 it1 c' root' where
    u: "UnCheckRadioParent e c p it 1 = (True, None, c1, it1)"
    and f1: "flds it1 = (flds it)\<lparr>it_checked := 1\<rparr>"
    and po: "list_all2 (enable_post ((1 :: nat) \<noteq> 0)) (GetChildren it) (GetChildren it1)"
    and ev1: "events c1 = events c @ [(EVT_TREE_ITEM_CHECKING, p), (EVT_TREE_ITEM_CHECKED, p)]"
    and csl: "CheckSameLevel e c1 (put_item root p it1) p 0 = (None, c', root')"
    and res: "CheckItem e c p 1 = (None, c'\<lparr>anchor := Some root'\<rparr>)"
    and ev': "events c' = events c1"
    and r0: "p = [] \<longrightarrow> root' = it1"
    and r1: "p \<noteq> [] \<longrightarrow>
        (\<exists>par cs'. get_item root (butlast p) = Some par \<and> last p < length (GetChildren par) \<and>
           GetChildren par ! last p = it \<and>
           root' = put_item root (butlast p) (Item (flds par) cs') \<and>
           length cs' = length (GetChildren par) \<and> cs' ! last p = it1 \<and>
           (\<forall>k<length cs'. k \<noteq> last p \<longrightarrow>
              (if GetType (GetChildren par ! k) = 2
               then unchecked_post (GetChildren par ! k) (cs' ! k)
               else cs' ! k = GetChildren par ! k)))"
    by blast
  have po': "list_all2 (enable_post True) (GetChildren it) (GetChildren it1)"
    using po by simp
  have gt: "get_item root' p = Some it1"
  proof (cases "p = []")
    case True
    then show ?thesis using r0 by simp
  next
    case ne: False
    with r1 obtain par cs' where "get_item root (butlast p) = Some par"
      "last p < length (GetChildren par)"
      "root' = put_item root (butlast p) (Item (flds par) cs')"
      "length cs' = length (GetChildren par)" "cs' ! last p = it1"
      "\<forall>k<length cs'. k \<noteq> last p \<longrightarrow>
              (if GetType (GetChildren par ! k) = 2
               then unchecked_post (GetChildren par ! k) (cs' ! k)
               else cs' ! k = GetChildren par ! k)"
      by blast
    then show ?thesis using CheckItem_radio_siblings(1)[of root p par cs' it1] ne by simp
  qed
  have sib: "\<forall>k s. p \<noteq> [] \<and> k \<noteq> last p \<and> get_item root (butlast p @ [k]) = Some s \<longrightarrow>
               get_item (put_item root p it1) (butlast p @ [k]) = Some s \<and>
               (\<exists>s'. get_item root' (butlast p @ [k]) = Some s' \<and>
                  (if GetType s = 2 then unchecked_post s s' else s' = s))"
  proof (intro allI impI)
    fix k s
    assume a: "p \<noteq> [] \<and> k \<noteq> last p \<and> get_item root (butlast p @ [k]) = Some s"
    with r1 obtain par cs' where "get_item root (butlast p) = Some par"
      "last p < length (GetChildren par)"
      "root' = put_item root (butlast p) (Item (flds par) cs')"
      "length cs' = length (GetChildren par)" "cs' ! last p = it1"
      "\<forall>k<length cs'. k \<noteq> last p \<longrightarrow>
              (if GetType (GetChildren par ! k) = 2
               then unchecked_post (GetChildren par ! k) (cs' ! k)
               else cs' ! k = GetChildren par ! k)"
      by blast
    then show "get_item (put_item root p it1) (butlast p @ [k]) = Some s \<and>
               (\<exists>s'. get_item root' (butlast p @ [k]) = Some s' \<and>
                  (if GetType s = 2 then unchecked_post s s' else s' = s))"
      using CheckItem_radio_siblings(2)[of root p par cs' it1 k s] a by simp
  qed
  have "\<exists>c1 it1 c' root'.
            UnCheckRadioParent e c p it 1 = (True, None, c1, it1) \<and>
            flds it1 = (flds it)\<lparr>it_checked := 1\<rparr> \<and>
            list_all2 (enable_post True) (GetChildren it) (GetChildren it1) \<and>
            events c1 = events c @ [(EVT_TREE_ITEM_CHECKING, p), (EVT_TREE_ITEM_CHECKED, p)] \<and>
            CheckSameLevel e c1 (put_item root p it1) p 0 = (None, c', root') \<and>
            events c' = events c1 \<and>
            CheckItem e c p 1 = (None, c'\<lparr>anchor := Some root'\<rparr>) \<and>
            get_item root' p = Some it1 \<and>
            (\<forall>k s. p \<noteq> [] \<and> k \<noteq> last p \<and> get_item root (butlast p @ [k]) = Some s \<longrightarrow>
               get_item (put_item root p it1) (butlast p @ [k]) = Some s \<and>
               (\<exists>s'. get_item root' (butlast p @ [k]) = Some s' \<and>
                  (if GetType s = 2 then unchecked_post s s' else s' = s)))"
    apply (rule exI[of _ c1])
    apply (rule exI[of _ it1])
    apply (rule exI[of _ c'])
    apply (rule exI[of _ root'])
    apply (intro conjI)
            apply (rule u)
           apply (rule f1)
          apply (rule po')
         apply (rule ev1)
        apply (rule csl)
       apply (rule ev')
      apply (rule res)
     apply (rule gt)
    apply (rule sib)
    done
  with False show ?thesis by simp
qed

subsection \<open>Checking a radio button\<close>

text \<open>
  Claim C2, as stated, has the peers unchecked first, each behind a notification of its
  own that a handler can veto. Here a handler processes every \<open>EVT_TREE_ITEM_CHECKING\<close>
  notification about the peer \<open>A\<close>, at \<open>[0]\<close>, which is checked. Checking \<open>B\<close>, at \<open>[1]\<close>,
  sends the two notifications about \<open>B\<close> and none about \<open>A\<close>; when the second one is
  sent, by \<open>UnCheckRadioParent\<close>, \<open>B\<close> is checked and \<open>A\<close> still is; \<open>A\<close> is unchecked
  after that, by \<open>CheckSameLevel\<close>, and the handler has no say in it.
\<close>

theorem CheckItem_radio_order_counterexample:
  "GetType (the (get_item demo_root [0])) = 2 \<and> IsChecked (the (get_item demo_root [0])) = 1 \<and>
   GetType (the (get_item demo_root [1])) = 2 \<and>
   handler blocking_host [(EVT_TREE_ITEM_CHECKING, [1]), (EVT_TREE_ITEM_CHECKED, [1])]
     (EVT_TREE_ITEM_CHECKING, [0]) \<and>
   fst (UnCheckRadioParent blocking_host demo [1] (the (get_item demo_root [1])) 1) \<and>
   events (fst (snd (snd (UnCheckRadioParent blocking_host demo [1]
       (the (get_item demo_root [1])) 1)))) =
     [(EVT_TREE_ITEM_CHECKING, [1]), (EVT_TREE_ITEM_CHECKED, [1])] \<and>
   IsChecked (snd (snd (snd (UnCheckRadioParent blocking_host demo [1]
       (the (get_item demo_root [1])) 1)))) = 1 \<and>
   fst (CheckItem blocking_host demo [1] 1) = None \<and>
   events (snd (CheckItem blocking_host demo [1] 1)) =
     [(EVT_TREE_ITEM_CHECKING, [1]), (EVT_TREE_ITEM_CHECKED, [1])] \<and>
   IsChecked (the (get_item (the (anchor (snd (CheckItem blocking_host demo [1] 1)))) [0])) = 0 \<and>
   IsChecked (the (get_item (the (anchor (snd (CheckItem blocking_host demo [1] 1)))) [1])) = 1"
  by code_simp

text \<open>
  Claim C2, amended. Let the item at \<open>p\<close> be a radio button, and call \<open>CheckItem\<close> on it
  with \<open>checked = True\<close>. There is one notification that a handler can veto, the
  \<open>EVT_TREE_ITEM_CHECKING\<close> about the target: if a handler processes it, nothing else
  happens. Otherwise \<open>UnCheckRadioParent\<close> first checks the target, enables the items
  below it (\<open>EnableChildren\<close> with \<open>True\<close>, which stops at the radio buttons below that
  are not checked) and sends \<open>EVT_TREE_ITEM_CHECKED\<close> about the target, the siblings being
  as before at that moment; then \<open>CheckSameLevel\<close> unchecks every sibling that is a radio
  button and disables all the items below it, with no notification, and leaves the other
  siblings and the target as they are.
\<close>

theorem CheckItem_radio_order:
  assumes "anchor c = Some root" and "get_item root p = Some it" and "GetType it = 2"
  shows "if handler e (events c) (EVT_TREE_ITEM_CHECKING, p)
         then CheckItem e c p 1 =
                (None, c\<lparr>events := events c @ [(EVT_TREE_ITEM_CHECKING, p)]\<rparr>)
         else (\<exists>c1 it1 c' root'.
            UnCheckRadioParent e c p it 1 = (True, None, c1, it1) \<and>
            flds it1 = (flds it)\<lparr>it_checked := 1\<rparr> \<and>
            list_all2 (enable_post True) (GetChildren it) (GetChildren it1) \<and>
            events c1 = events c @ [(EVT_TREE_ITEM_CHECKING, p), (EVT_TREE_ITEM_CHECKED, p)] \<and>
            CheckSameLevel e c1 (put_item root p it1) p 0 = (None, c', root') \<and>
            events c' = events c1 \<and>
            CheckItem e c p 1 = (None, c'\<lparr>anchor := Some root'\<rparr>) \<and>
            get_item root' p = Some it1 \<and>
            (\<forall>k s. p \<noteq> [] \<and> k \<noteq> last p \<and> get_item root (butlast p @ [k]) = Some s \<longrightarrow>
               get_item (put_item root p it1) (butlast p @ [k]) = Some s \<and>
               (\<exists>s'. get_item root' (butlast p @ [k]) = Some s' \<and>
                  (if GetType s = 2 then unchecked_post s s' else s' = s))))"
  using assms by (rule CheckItem_radio_final)

theorem CheckItem_radio_order_witness:
  "anchor demo = Some demo_root \<and>
   get_item demo_root [1] = Some (the (get_item demo_root [1])) \<and>
   GetType (the (get_item demo_root [1])) = 2 \<and>
   \<not> handler host (events demo) (EVT_TREE_ITEM_CHECKING, [1]) \<and>
   fst (CheckItem host demo [1] 1) = None \<and>
   events (snd (CheckItem host demo [1] 1)) =
     [(EVT_TREE_ITEM_CHECKING, [1]), (EVT_TREE_ITEM_CHECKED, [1])] \<and>
   IsChecked (the (get_item (the (anchor (snd (CheckItem host demo [1] 1)))) [1])) = 1 \<and>
   (\<exists>s'. get_item (the (anchor (snd (CheckItem host demo [1] 1)))) [0] = Some s' \<and>
         unchecked_post (the (get_item demo_root [0])) s') \<and>
   handler (host\<lparr>handler := \<lambda>h ev. True\<rparr>) (events demo) (EVT_TREE_ITEM_CHECKING, [1]) \<and>
   CheckItem (host\<lparr>handler := \<lambda>h ev. True\<rparr>) demo [1] 1 =
     (None, demo\<lparr>events := [(EVT_TREE_ITEM_CHECKING, [1])]\<rparr>)"
proof -
  let ?B = "the (get_item demo_root [1])"
  let ?A = "the (get_item demo_root [0])"
  have a: "anchor demo = Some demo_root" by (simp add: demo_def)
  have g: "get_item demo_root [1] = Some ?B" by (simp add: demo_root_def)
  have t: "GetType ?B = 2" by (simp add: demo_defs item_defs)
  have nh: "handler host (events demo) (EVT_TREE_ITEM_CHECKING, [1]) = False"
    by (simp add: host_def)
  have h: "handler (host\<lparr>handler := \<lambda>h ev. True\<rparr>) (events demo) (EVT_TREE_ITEM_CHECKING, [1]) = True"
    by simp
  have ev: "events demo = []" by (simp add: demo_defs)
  have gA: "get_item demo_root (butlast [1] @ [0]) = Some ?A" by (simp add: demo_root_def)
  have tA: "GetType ?A = 2" by (simp add: demo_defs item_defs)
  note m1 = CheckItem_radio_order[OF a g t, of host]
  note m2 = CheckItem_radio_order[OF a g t, of "host\<lparr>handler := \<lambda>h ev. True\<rparr>"]
  from m1[unfolded nh if_False] obtain c1 it1 c' root' where
    u: "UnCheckRadioParent host demo [1] ?B 1 = (True, None, c1, it1)"
    and csl: "CheckSameLevel host c1 (put_item demo_root [1] it1) [1] 0 = (None, c', root')"
    and f1: "flds it1 = (flds ?B)\<lparr>it_checked := 1\<rparr>"
    and ev1: "events c1 = events demo @ [(EVT_TREE_ITEM_CHECKING, [1]), (EVT_TREE_ITEM_CHECKED, [1])]"
    and ev': "events c' = events c1"
    and res: "CheckItem host demo [1] 1 = (None, c'\<lparr>anchor := Some root'\<rparr>)"
    and gt: "get_item root' [1] = Some it1"
    and sib: "\<forall>k s. [1 :: nat] \<noteq> [] \<and> k \<noteq> last [1] \<and> get_item demo_root (butlast [1] @ [k]) = Some s \<longrightarrow>
               get_item (put_item demo_root [1] it1) (butlast [1] @ [k]) = Some s \<and>
               (\<exists>s'. get_item root' (butlast [1] @ [k]) = Some s' \<and>
                  (if GetType s = 2 then unchecked_post s s' else s' = s))"
    by (elim exE conjE) (rule that)
  from sib[rule_format, of 0 ?A] gA tA
  have pA: "\<exists>s'. get_item root' [0] = Some s' \<and> unchecked_post ?A s'" by simp
  have r2: "CheckItem (host\<lparr>handler := \<lambda>h ev. True\<rparr>) demo [1] 1 =
     (None, demo\<lparr>events := [(EVT_TREE_ITEM_CHECKING, [1])]\<rparr>)"
    using m2 unfolding h if_True by (simp add: ev)
  have c1: "IsChecked it1 = 1" using f1 by (simp add: IsChecked_def GetValue_def)
  show ?thesis
    using a g t nh h res gt pA r2 c1 ev ev1 ev' by simp
qed

subsection \<open>The items below a radio button\<close>




end
